theory Spec2Isabelle
  imports Complex_Main "HOL-Library.Multiset" "HOL-Library.AList"
begin

section \<open>Python values shared by the models\<close>

text \<open>
  The exceptions the modelled functions can raise. \<open>MissingSlices\<close> is the
  \<^verbatim>\<open>ValueError('It appears there are missing slices')\<close> of
  \<^verbatim>\<open>_check_for_missing_slices\<close>, \<open>GridInconsistency p\<close> the \<^verbatim>\<open>ValueError\<close> of
  \<^verbatim>\<open>_slice_attribute_equal\<close> for the property \<open>p\<close>, \<open>OrientationDegenerate\<close> the
  \<^verbatim>\<open>ValueError\<close>s of \<^verbatim>\<open>_validate_image_orientation\<close>, \<open>EmptyInput\<close> the
  \<^verbatim>\<open>ValueError\<close> of \<^verbatim>\<open>combine_slices\<close>, and \<open>BroadcastError\<close> the \<^verbatim>\<open>ValueError\<close>
  numpy raises when shapes do not fit in an assignment, \<open>ReshapeError\<close> the one it
  raises when sizes do not fit in a reshape, \<open>AxisError\<close> numpy's exception for an
  axis the array does not have. The others are Python's built-in exceptions.
\<close>

datatype error =
    IndexError
  | KeyError
  | TypeError
  | AxisError
  | AttributeError
  | ReshapeError
  | BroadcastError
  | EmptyInput
  | GridInconsistency string
  | OrientationDegenerate
  | MissingSlices

text \<open>
  Keys of the ROI store are what the callers pass: an integer, or \<^verbatim>\<open>None\<close>. The
  store indexes its dictionaries by \<^verbatim>\<open>str(key)\<close>.
\<close>

type_synonym pykey = "int option"

function digits :: "nat \<Rightarrow> string" where
  "digits n = (if n < 10 then [''0123456789'' ! n]
               else digits (n div 10) @ [''0123456789'' ! (n mod 10)])"
  by pat_completeness auto
termination
  by (relation "measure id") auto

declare digits.simps [simp del]

definition py_str :: "pykey \<Rightarrow> string" where
  "py_str key = (case key of
       None \<Rightarrow> ''None''
     | Some i \<Rightarrow> (if i < 0 then CHR ''-'' # digits (nat (- i)) else digits (nat i)))"

section \<open>The ROI store (class \<^verbatim>\<open>MEDimage.scan.ROI\<close>)\<close>

text \<open>
  A Python dictionary is an association list in insertion order; \<^verbatim>\<open>d[k] = v\<close> is
  \<^const>\<open>AList.update\<close>, which overwrites in place or appends. The three name dictionaries
  are objects on a heap, so that two attributes can hold the same object: \<open>names_heap\<close>
  is the list of the dictionary objects and the attributes are addresses into it.
  \<open>indexes\<close> maps \<^verbatim>\<open>str(key)\<close> to the flat voxel indices of the ROI.
\<close>

type_synonym 'v dict = "(string \<times> 'v) list"

record 'v ROI =
  indexes :: "nat list dict"
  names_heap :: "'v dict list"
  roi_names :: nat
  nameSet :: nat
  nameSetInfo :: nat

text \<open>What a getter returns: the empty dictionary \<^verbatim>\<open>{}\<close> or the stored value.\<close>

datatype 'a got = EmptyDict | Stored 'a

text \<open>
  \<^verbatim>\<open>__init__(indexes=None, roi_names=None)\<close>: \<^verbatim>\<open>x if x else {}\<close> keeps the argument
  object when it is a non-empty dictionary and makes a fresh \<^verbatim>\<open>{}\<close> otherwise, once
  for each of the three attributes.
\<close>

definition ROI_init :: "nat list dict option \<Rightarrow> 'v dict option \<Rightarrow> 'v ROI" where
  "ROI_init indexes_arg roi_names_arg =
     (let idx = (case indexes_arg of None \<Rightarrow> [] | Some d \<Rightarrow> d) in
      case roi_names_arg of
        None \<Rightarrow> \<lparr>indexes = idx, names_heap = [[], [], []],
                  roi_names = 0, nameSet = 1, nameSetInfo = 2\<rparr>
      | Some d \<Rightarrow>
          if d = [] then \<lparr>indexes = idx, names_heap = [d, [], [], []],
                           roi_names = 1, nameSet = 2, nameSetInfo = 3\<rparr>
          else \<lparr>indexes = idx, names_heap = [d],
                roi_names = 0, nameSet = 0, nameSetInfo = 0\<rparr>)"

definition dict_get :: "'a dict \<Rightarrow> pykey \<Rightarrow> error + 'a got" where
  "dict_get d key =
     (if d = [] \<or> key = None then Inr EmptyDict
      else case map_of d (py_str key) of
             None \<Rightarrow> Inl KeyError
           | Some v \<Rightarrow> Inr (Stored v))"

definition get_indexes :: "'v ROI \<Rightarrow> pykey \<Rightarrow> error + nat list got" where
  "get_indexes s key = dict_get (indexes s) key"

definition get_ROIname :: "'v ROI \<Rightarrow> pykey \<Rightarrow> error + 'v got" where
  "get_ROIname s key = dict_get (names_heap s ! roi_names s) key"

definition get_nameSet :: "'v ROI \<Rightarrow> pykey \<Rightarrow> error + 'v got" where
  "get_nameSet s key = dict_get (names_heap s ! nameSet s) key"

definition get_nameSetInfo :: "'v ROI \<Rightarrow> pykey \<Rightarrow> error + 'v got" where
  "get_nameSetInfo s key = dict_get (names_heap s ! nameSetInfo s) key"

text \<open>
  The setters assign \<^verbatim>\<open>d[str(key)] = value\<close> inside a \<^verbatim>\<open>try\<close>; assignment to a
  dictionary under a string key does not raise, so the handler is never entered.
\<close>

definition update_indexes :: "'v ROI \<Rightarrow> pykey \<Rightarrow> nat list \<Rightarrow> 'v ROI" where
  "update_indexes s key ixs = s\<lparr>indexes := AList.update (py_str key) ixs (indexes s)\<rparr>"

definition heap_set :: "'v dict list \<Rightarrow> nat \<Rightarrow> pykey \<Rightarrow> 'v \<Rightarrow> 'v dict list" where
  "heap_set h a key v = h[a := AList.update (py_str key) v (h ! a)]"

definition update_ROIname :: "'v ROI \<Rightarrow> pykey \<Rightarrow> 'v \<Rightarrow> 'v ROI" where
  "update_ROIname s key v = s\<lparr>names_heap := heap_set (names_heap s) (roi_names s) key v\<rparr>"

definition update_nameSet :: "'v ROI \<Rightarrow> pykey \<Rightarrow> 'v \<Rightarrow> 'v ROI" where
  "update_nameSet s key v = s\<lparr>names_heap := heap_set (names_heap s) (nameSet s) key v\<rparr>"

definition update_nameSetInfo :: "'v ROI \<Rightarrow> pykey \<Rightarrow> 'v \<Rightarrow> 'v ROI" where
  "update_nameSetInfo s key v =
     s\<lparr>names_heap := heap_set (names_heap s) (nameSetInfo s) key v\<rparr>"

text \<open>The three name attributes hold one and the same dictionary object.\<close>

definition aliased :: "'v ROI \<Rightarrow> bool" where
  "aliased s \<longleftrightarrow> roi_names s = nameSet s \<and> nameSetInfo s = nameSet s
                 \<and> nameSet s < length (names_heap s)"

section \<open>numpy arrays\<close>

text \<open>
  An array is its shape, its dtype and its elements in row-major (C) order, as numpy
  lays out the arrays this code creates. Floating-point values are modelled as real
  numbers: no rounding, no overflow, no NaN.
\<close>

datatype dtype = Int8 | UInt8 | Int16 | UInt16 | Int32 | UInt32 | Int64 | UInt64 | Float32 | Float64

record ndarray =
  shape :: "nat list"
  dtype :: dtype
  flat :: "real list"

text \<open>The invariant of every numpy array: as many elements as the shape says.\<close>

definition wf_array :: "ndarray \<Rightarrow> bool" where
  "wf_array a \<longleftrightarrow> length (flat a) = prod_list (shape a)"

text \<open>
  \<open>unravel s i\<close> is the multi-index of the flat position \<open>i\<close> in an array of shape
  \<open>s\<close> (\<^verbatim>\<open>np.unravel_index\<close>), \<open>ravel s idx\<close> the flat position of a multi-index
  (\<^verbatim>\<open>np.ravel_multi_index\<close>).
\<close>

fun unravel :: "nat list \<Rightarrow> nat \<Rightarrow> nat list" where
  "unravel [] i = []"
| "unravel (n # ns) i = (i div prod_list ns) # unravel ns (i mod prod_list ns)"

fun ravel :: "nat list \<Rightarrow> nat list \<Rightarrow> nat" where
  "ravel (n # ns) (j # js) = j * prod_list ns + ravel ns js"
| "ravel _ _ = 0"

definition valid_index :: "nat list \<Rightarrow> nat list \<Rightarrow> bool" where
  "valid_index s idx \<longleftrightarrow> list_all2 (<) idx s"

text \<open>
  The elements of an array of shape \<open>s\<close> read through a map of multi-indices:
  position \<open>idx\<close> of the result holds what position \<open>f idx\<close> of the argument held.
\<close>

definition reindex :: "nat list \<Rightarrow> (nat list \<Rightarrow> nat list) \<Rightarrow> real list \<Rightarrow> real list" where
  "reindex s f xs = map (\<lambda>i. xs ! ravel s (f (unravel s i))) [0..<length xs]"

text \<open>
  \<^verbatim>\<open>np.flip(m, axis)\<close>: along the axis, position \<open>j\<close> holds what position
  \<open>n - 1 - j\<close> held; an axis the array does not have raises \<^verbatim>\<open>AxisError\<close>.
\<close>

definition flip_index :: "nat list \<Rightarrow> nat \<Rightarrow> nat list \<Rightarrow> nat list" where
  "flip_index s ax idx = idx[ax := s ! ax - 1 - idx ! ax]"

definition np_flip :: "ndarray \<Rightarrow> nat \<Rightarrow> error + ndarray" where
  "np_flip a ax =
     (if ax < length (shape a)
      then Inr (a\<lparr>flat := reindex (shape a) (flip_index (shape a) ax) (flat a)\<rparr>)
      else Inl AxisError)"

text \<open>
  \<^verbatim>\<open>np.zeros_like(a)\<close>; of \<^verbatim>\<open>None\<close> it is a zero-dimensional array with one element.
  \<^verbatim>\<open>a.flatten()\<close> and \<^verbatim>\<open>a.reshape(s)\<close> keep the elements in their order; a reshape to
  another size raises.
\<close>

definition np_zeros_like :: "ndarray option \<Rightarrow> ndarray" where
  "np_zeros_like a =
     (case a of
        None \<Rightarrow> \<lparr>shape = [], dtype = Float64, flat = [0]\<rparr>
      | Some a \<Rightarrow> a\<lparr>flat := replicate (prod_list (shape a)) 0\<rparr>)"

definition flatten :: "ndarray \<Rightarrow> ndarray" where
  "flatten a = a\<lparr>shape := [prod_list (shape a)]\<rparr>"

definition reshape :: "ndarray \<Rightarrow> nat list \<Rightarrow> error + ndarray" where
  "reshape a s = (if prod_list s = prod_list (shape a) then Inr (a\<lparr>shape := s\<rparr>)
                  else Inl ReshapeError)"

text \<open>
  \<^verbatim>\<open>a[ixs] = x\<close> for a one-dimensional array and an array of flat indices, as
  \<^verbatim>\<open>np.nonzero\<close> returns them (non-negative): an index beyond the end raises
  \<^verbatim>\<open>IndexError\<close> and nothing is written.
\<close>

definition setitem_indices :: "ndarray \<Rightarrow> nat list \<Rightarrow> real \<Rightarrow> error + ndarray" where
  "setitem_indices a ixs x =
     (if list_all (\<lambda>j. j < length (flat a)) ixs
      then Inr (a\<lparr>flat := foldl (\<lambda>xs j. xs[j := x]) (flat a) ixs\<rparr>)
      else Inl IndexError)"

text \<open>\<^verbatim>\<open>np.nonzero(a)\<close> of a one-dimensional array: the positions of its non-zero elements, ascending.\<close>

definition np_nonzero :: "ndarray \<Rightarrow> nat list" where
  "np_nonzero a = filter (\<lambda>i. flat a ! i \<noteq> 0) [0..<length (flat a)]"

section \<open>The volume and its spatial reference (class \<^verbatim>\<open>MEDimage.scan.volume\<close>)\<close>

text \<open>
  The attributes of \<^verbatim>\<open>imref3d\<close> that the code reads and writes. \<^verbatim>\<open>volume.spatialRef\<close>
  and \<^verbatim>\<open>volume.data\<close> are \<^verbatim>\<open>None\<close> until set.
\<close>

record imref3d =
  ImageSize :: "nat list"
  PixelExtentInWorldX :: real
  PixelExtentInWorldY :: real
  PixelExtentInWorldZ :: real
  ImageExtentInWorldX :: real
  ImageExtentInWorldY :: real
  ImageExtentInWorldZ :: real
  XIntrinsicLimits :: "real list"
  YIntrinsicLimits :: "real list"
  ZIntrinsicLimits :: "real list"
  XWorldLimits :: "real list"
  YWorldLimits :: "real list"
  ZWorldLimits :: "real list"

record volume =
  spatialRef :: "imref3d option"
  data :: "ndarray option"

text \<open>\<^verbatim>\<open>volume.convert_to_LPS\<close>: \<^verbatim>\<open>np.flip(self.data, 0)\<close>, then \<^verbatim>\<open>np.flip(self.data, 1)\<close>.\<close>

definition convert_to_LPS :: "volume \<Rightarrow> error + volume" where
  "convert_to_LPS v =
     (case data v of
        None \<Rightarrow> Inl AxisError
      | Some a \<Rightarrow>
          (case np_flip a 0 of
             Inl e \<Rightarrow> Inl e
           | Inr a0 \<Rightarrow>
               (case np_flip a0 1 of
                  Inl e \<Rightarrow> Inl e
                | Inr a1 \<Rightarrow> Inr (v\<lparr>data := Some a1\<rparr>))))"

text \<open>
  \<^verbatim>\<open>volume.convert_spatialRef\<close>: four exchanges through \<^verbatim>\<open>temp\<close>, of the image extents,
  the pixel extents, the intrinsic limits and the world limits of X and Y.
\<close>

definition swap_x_y :: "imref3d \<Rightarrow> imref3d" where
  "swap_x_y r =
     (let r1 = r\<lparr>ImageExtentInWorldX := ImageExtentInWorldY r,
                 ImageExtentInWorldY := ImageExtentInWorldX r\<rparr>;
          r2 = r1\<lparr>PixelExtentInWorldX := PixelExtentInWorldY r1,
                  PixelExtentInWorldY := PixelExtentInWorldX r1\<rparr>;
          r3 = r2\<lparr>XIntrinsicLimits := YIntrinsicLimits r2,
                  YIntrinsicLimits := XIntrinsicLimits r2\<rparr>
      in r3\<lparr>XWorldLimits := YWorldLimits r3, YWorldLimits := XWorldLimits r3\<rparr>)"

definition convert_spatialRef :: "volume \<Rightarrow> error + volume" where
  "convert_spatialRef v =
     (case spatialRef v of
        None \<Rightarrow> Inl AttributeError
      | Some r \<Rightarrow> Inr (v\<lparr>spatialRef := Some (swap_x_y r)\<rparr>))"

text \<open>Two applications in a row of an operation that can fail.\<close>

definition twice :: "('a \<Rightarrow> error + 'a) \<Rightarrow> 'a \<Rightarrow> error + 'a" where
  "twice f x = (case f x of Inl e \<Rightarrow> Inl e | Inr y \<Rightarrow> f y)"

text \<open>
  \<^verbatim>\<open>scan.get_ROI_from_indexes(key)\<close>: a zeroed flat buffer of the volume's size, ones at
  the stored indices, reshaped to the volume's shape. An empty result of the getter is
  a dictionary, which is no valid index.
\<close>

definition get_ROI_from_indexes :: "volume \<Rightarrow> 'v ROI \<Rightarrow> pykey \<Rightarrow> error + ndarray" where
  "get_ROI_from_indexes v roi key =
     (let roi_volume = flatten (np_zeros_like (data v)) in
      case get_indexes roi key of
        Inl e \<Rightarrow> Inl e
      | Inr EmptyDict \<Rightarrow> Inl IndexError
      | Inr (Stored ixs) \<Rightarrow>
          (case setitem_indices roi_volume ixs 1 of
             Inl e \<Rightarrow> Inl e
           | Inr m \<Rightarrow>
               (case data v of
                  None \<Rightarrow> Inl AttributeError
                | Some a \<Rightarrow> reshape m (shape a))))"

section \<open>More of numpy: casts, element access, assignment to a slice\<close>

text \<open>
  A value assigned into an array of another dtype is cast: integer dtypes truncate
  towards zero and wrap around modulo their width; the float dtypes keep the value (no
  rounding is modelled). A copy between arrays of one dtype changes nothing.
\<close>

definition int_bounds :: "dtype \<Rightarrow> (int \<times> int) option" where
  "int_bounds dt = (case dt of
       Int8 \<Rightarrow> Some (- (2 ^ 7), 2 ^ 7 - 1)
     | UInt8 \<Rightarrow> Some (0, 2 ^ 8 - 1)
     | Int16 \<Rightarrow> Some (- (2 ^ 15), 2 ^ 15 - 1)
     | UInt16 \<Rightarrow> Some (0, 2 ^ 16 - 1)
     | Int32 \<Rightarrow> Some (- (2 ^ 31), 2 ^ 31 - 1)
     | UInt32 \<Rightarrow> Some (0, 2 ^ 32 - 1)
     | Int64 \<Rightarrow> Some (- (2 ^ 63), 2 ^ 63 - 1)
     | UInt64 \<Rightarrow> Some (0, 2 ^ 64 - 1)
     | Float32 \<Rightarrow> None
     | Float64 \<Rightarrow> None)"

definition np_cast :: "dtype \<Rightarrow> real \<Rightarrow> real" where
  "np_cast dt x =
     (case int_bounds dt of
        None \<Rightarrow> x
      | Some (lo, hi) \<Rightarrow>
          of_int (lo + ((if 0 \<le> x then \<lfloor>x\<rfloor> else \<lceil>x\<rceil>) - lo) mod (hi - lo + 1)))"

definition assign_cast :: "dtype \<Rightarrow> dtype \<Rightarrow> real \<Rightarrow> real" where
  "assign_cast src dst x = (if src = dst then x else np_cast dst x)"

definition astype :: "ndarray \<Rightarrow> dtype \<Rightarrow> ndarray" where
  "astype a dt = a\<lparr>dtype := dt, flat := map (assign_cast (dtype a) dt) (flat a)\<rparr>"

text \<open>An array times a Python float, an array plus a Python float: element by element.\<close>

definition np_mul_scalar :: "ndarray \<Rightarrow> real \<Rightarrow> ndarray" where
  "np_mul_scalar a x = a\<lparr>flat := map (\<lambda>v. v * x) (flat a)\<rparr>"

definition np_add_scalar :: "ndarray \<Rightarrow> real \<Rightarrow> ndarray" where
  "np_add_scalar a x = a\<lparr>flat := map (\<lambda>v. v + x) (flat a)\<rparr>"

text \<open>
  \<^verbatim>\<open>np.empty(shape, dtype)\<close>: the elements are whatever the memory holds, here the
  parameter \<open>mem\<close>.
\<close>

definition np_empty :: "(nat \<Rightarrow> real) \<Rightarrow> nat list \<Rightarrow> dtype \<Rightarrow> ndarray" where
  "np_empty mem s dt = \<lparr>shape = s, dtype = dt, flat = map mem [0..<prod_list s]\<rparr>"

text \<open>\<^verbatim>\<open>a.T\<close>: the axes in reverse order.\<close>

definition np_T :: "ndarray \<Rightarrow> ndarray" where
  "np_T a = a\<lparr>shape := rev (shape a),
              flat := map (\<lambda>i. flat a ! ravel (shape a) (rev (unravel (rev (shape a)) i)))
                        [0..<length (flat a)]\<rparr>"

text \<open>\<^verbatim>\<open>a[idx]\<close> for a full multi-index inside the shape.\<close>

definition getitem :: "ndarray \<Rightarrow> nat list \<Rightarrow> real" where
  "getitem a idx = flat a ! ravel (shape a) idx"

text \<open>
  numpy's broadcasting of a value of shape \<open>src\<close> into a target of shape \<open>tgt\<close>:
  the shapes are aligned at their last axes, leading axes of the value beyond the
  target's must have length 1, and each remaining axis has the target's length or
  length 1 (then its one element is repeated).
\<close>

definition broadcast_shape :: "nat list \<Rightarrow> nat list \<Rightarrow> nat list option" where
  "broadcast_shape src tgt =
     (let extra = length src - length tgt;
          aligned = replicate (length tgt - length src) 1 @ drop extra src
      in if list_all (\<lambda>a. a = 1) (take extra src)
            \<and> list_all2 (\<lambda>a t. a = t \<or> a = 1) aligned tgt
         then Some aligned else None)"

definition broadcast_get :: "ndarray \<Rightarrow> nat list \<Rightarrow> nat list \<Rightarrow> real" where
  "broadcast_get x aligned idx =
     flat x ! ravel aligned (map (\<lambda>(a, j). if a = 1 then 0 else j) (zip aligned idx))"

text \<open>
  \<^verbatim>\<open>voxels[:, :, k] = x\<close> for a three-dimensional \<^verbatim>\<open>voxels\<close>: \<^verbatim>\<open>IndexError\<close> for \<open>k\<close>
  beyond the last axis, \<^verbatim>\<open>ValueError\<close> when \<open>x\<close> does not broadcast to the first two
  axes.
\<close>

definition setitem_slice :: "ndarray \<Rightarrow> nat \<Rightarrow> ndarray \<Rightarrow> error + ndarray" where
  "setitem_slice vol k x =
     (case shape vol of
        [c, r, n] \<Rightarrow>
          if k < n
          then (case broadcast_shape (shape x) [c, r] of
                  None \<Rightarrow> Inl BroadcastError
                | Some aligned \<Rightarrow>
                    Inr (vol\<lparr>flat :=
                      map (\<lambda>i. let idx = unravel [c, r, n] i in
                                if idx ! 2 = k
                                then assign_cast (dtype x) (dtype vol)
                                       (broadcast_get x aligned (take 2 idx))
                                else flat vol ! i)
                        [0..<length (flat vol)]\<rparr>))
          else Inl IndexError
      | _ \<Rightarrow> Inl IndexError)"

section \<open>DICOM slices (\<^verbatim>\<open>wrangling/combine_slices.py\<close>)\<close>

text \<open>
  The attributes of a pydicom dataset that the code reads. \<^verbatim>\<open>ImageOrientationPatient\<close>
  is the row cosine and the column cosine, \<^verbatim>\<open>PixelSpacing\<close> the row spacing and the
  column spacing. \<^verbatim>\<open>RescaleSlope\<close> and \<^verbatim>\<open>RescaleIntercept\<close> may be absent
  (\<^verbatim>\<open>hasattr\<close>). \<^verbatim>\<open>SOPInstanceUID\<close> stands for what else tells two datasets apart when
  Python compares them.
\<close>

type_synonym vec3 = "real \<times> real \<times> real"

record dataset =
  SOPInstanceUID :: string
  Modality :: string
  SOPClassUID :: string
  SeriesInstanceUID :: string
  Rows :: nat
  Columns :: nat
  ImageOrientationPatient :: "vec3 \<times> vec3"
  PixelSpacing :: "real \<times> real"
  ImagePositionPatient :: vec3
  PixelRepresentation :: nat
  BitsAllocated :: nat
  BitsStored :: nat
  HighBit :: nat
  RescaleSlope :: "real option"
  RescaleIntercept :: "real option"
  pixel_array :: ndarray

text \<open>The warnings \<^verbatim>\<open>warnings.warn\<close> gives; a function that returns, returns them.\<close>

datatype warning = NotQuiteOrthogonal | RowNotQuiteUnit | ColumnNotQuiteUnit | NonUniformSpacing

fun np_dot :: "vec3 \<Rightarrow> vec3 \<Rightarrow> real" where
  "np_dot (a1, a2, a3) (b1, b2, b3) = a1 * b1 + a2 * b2 + a3 * b3"

fun np_cross :: "vec3 \<Rightarrow> vec3 \<Rightarrow> vec3" where
  "np_cross (a1, a2, a3) (b1, b2, b3) = (a2 * b3 - a3 * b2, a3 * b1 - a1 * b3, a1 * b2 - a2 * b1)"

definition np_norm :: "vec3 \<Rightarrow> real" where
  "np_norm v = sqrt (np_dot v v)"

text \<open>
  \<^verbatim>\<open>np.diff\<close>, \<^verbatim>\<open>np.mean\<close> and \<^verbatim>\<open>np.allclose(a, b, atol, rtol)\<close>, which holds when
  \<^verbatim>\<open>|x - b| <= atol + rtol * |b|\<close> for every element \<open>x\<close> of \<open>a\<close>.
\<close>

definition np_diff :: "real list \<Rightarrow> real list" where
  "np_diff xs = map (\<lambda>(a, b). b - a) (zip xs (tl xs))"

definition np_mean :: "real list \<Rightarrow> real" where
  "np_mean xs = sum_list xs / real (length xs)"

definition np_allclose :: "real list \<Rightarrow> real \<Rightarrow> real \<Rightarrow> real \<Rightarrow> bool" where
  "np_allclose a b atol rtol = list_all (\<lambda>x. \<bar>x - b\<bar> \<le> atol + rtol * \<bar>b\<bar>) a"

text \<open>\<^verbatim>\<open>is_close\<close>, \<^verbatim>\<open>_almost_zero\<close>, \<^verbatim>\<open>_almost_one\<close> (\<^verbatim>\<open>rel_tol\<close> at its default \<^verbatim>\<open>1e-9\<close>).\<close>

definition is_close :: "real \<Rightarrow> real \<Rightarrow> real \<Rightarrow> real \<Rightarrow> bool" where
  "is_close a b rel_tol abs_tol \<longleftrightarrow> \<bar>a - b\<bar> \<le> max (rel_tol * max \<bar>a\<bar> \<bar>b\<bar>) abs_tol"

definition almost_zero :: "real \<Rightarrow> real \<Rightarrow> bool" where
  "almost_zero val abs_tol = is_close val 0 (1 / 10 ^ 9) abs_tol"

definition almost_one :: "real \<Rightarrow> real \<Rightarrow> bool" where
  "almost_one val abs_tol = is_close val 1 (1 / 10 ^ 9) abs_tol"

text \<open>\<^verbatim>\<open>_extract_cosines\<close>: the slice cosine is the cross product of the other two.\<close>

definition extract_cosines :: "vec3 \<times> vec3 \<Rightarrow> vec3 \<times> vec3 \<times> vec3" where
  "extract_cosines image_orientation =
     (let row_cosine = fst image_orientation;
          column_cosine = snd image_orientation;
          slice_cosine = np_cross row_cosine column_cosine
      in (row_cosine, column_cosine, slice_cosine))"

text \<open>
  \<^verbatim>\<open>_slice_positions\<close>: the position of every slice projected on the slice cosine of the
  first dataset of the list; \<^verbatim>\<open>slice_datasets[0]\<close> raises \<^verbatim>\<open>IndexError\<close> on the empty list.
\<close>

definition slice_positions :: "dataset list \<Rightarrow> error + real list" where
  "slice_positions slice_datasets =
     (case slice_datasets of
        [] \<Rightarrow> Inl IndexError
      | d0 # _ \<Rightarrow>
          (let (row_cosine, column_cosine, slice_cosine) =
                 extract_cosines (ImageOrientationPatient d0)
           in Inr (map (\<lambda>d. np_dot slice_cosine (ImagePositionPatient d)) slice_datasets)))"

text \<open>
  \<^verbatim>\<open>_check_for_missing_slices\<close>: \<^verbatim>\<open>slice_positions_diffs[0]\<close> raises \<^verbatim>\<open>IndexError\<close> when
  there is no step (fewer than two positions).
\<close>

definition check_for_missing_slices :: "real list \<Rightarrow> error + warning list" where
  "check_for_missing_slices positions =
     (let slice_positions_diffs = np_diff (sort positions) in
      case slice_positions_diffs of
        [] \<Rightarrow> Inl IndexError
      | d0 # _ \<Rightarrow>
          (let ws = (if \<not> np_allclose slice_positions_diffs d0 0 (1 / 10 ^ 5)
                     then [NonUniformSpacing] else [])
           in if \<not> np_allclose slice_positions_diffs d0 0 (1 / 10)
              then Inl MissingSlices else Inr ws))"

text \<open>\<^verbatim>\<open>_slice_spacing\<close>\<close>

definition slice_spacing :: "dataset list \<Rightarrow> error + real" where
  "slice_spacing slice_datasets =
     (if length slice_datasets > 1
      then (case slice_positions slice_datasets of
              Inl e \<Rightarrow> Inl e
            | Inr positions \<Rightarrow> Inr (np_mean (np_diff (sort positions))))
      else Inr 0)"

text \<open>
  \<^verbatim>\<open>_sort_by_slice_spacing\<close>: \<^verbatim>\<open>sorted(zip(slice_spacing, slice_datasets))\<close> compares
  pairs. Two pairs with the same position are compared by their datasets, and pydicom
  datasets that are not equal have no order: the comparison raises \<^verbatim>\<open>TypeError\<close>. A
  sort that returns has compared every two neighbours of its result, so it raises
  exactly when two different datasets share a position.
\<close>

definition tie_conflict :: "(real \<times> dataset) list \<Rightarrow> bool" where
  "tie_conflict kds = list_ex (\<lambda>(s, d). list_ex (\<lambda>(s', d'). s = s' \<and> d \<noteq> d') kds) kds"

definition sort_by_slice_spacing :: "dataset list \<Rightarrow> error + dataset list" where
  "sort_by_slice_spacing slice_datasets =
     (case slice_positions slice_datasets of
        Inl e \<Rightarrow> Inl e
      | Inr keys \<Rightarrow>
          (let kds = zip keys slice_datasets in
           if tie_conflict kds then Inl TypeError
           else Inr (map snd (sort_key fst kds))))"

text \<open>
  \<^verbatim>\<open>_slice_attribute_equal\<close> for one property, \<^verbatim>\<open>_validate_image_orientation\<close>, and
  \<^verbatim>\<open>_validate_slices_form_uniform_grid\<close>, which runs the eleven property checks in
  their order, then the orientation check, then the check for missing slices.
\<close>

definition slice_attribute_equal :: "dataset list \<Rightarrow> string \<Rightarrow> (dataset \<Rightarrow> 'a) \<Rightarrow> error + unit" where
  "slice_attribute_equal slice_datasets property_name attr =
     (case slice_datasets of
        [] \<Rightarrow> Inl IndexError
      | d0 # rest \<Rightarrow>
          if list_all (\<lambda>d. attr d = attr d0) rest then Inr ()
          else Inl (GridInconsistency property_name))"

definition validate_image_orientation :: "vec3 \<times> vec3 \<Rightarrow> error + warning list" where
  "validate_image_orientation image_orientation =
     (let (row_cosine, column_cosine, slice_cosine) = extract_cosines image_orientation in
      if \<not> almost_zero (np_dot row_cosine column_cosine) (1 / 10 ^ 4)
      then Inl OrientationDegenerate
      else let w1 = (if \<not> almost_zero (np_dot row_cosine column_cosine) (1 / 10 ^ 8)
                     then [NotQuiteOrthogonal] else []) in
      if \<not> almost_one (np_norm row_cosine) (1 / 10 ^ 4)
      then Inl OrientationDegenerate
      else let w2 = (if \<not> almost_one (np_norm row_cosine) (1 / 10 ^ 8)
                     then [RowNotQuiteUnit] else []) in
      if \<not> almost_one (np_norm column_cosine) (1 / 10 ^ 4)
      then Inl OrientationDegenerate
      else let w3 = (if \<not> almost_one (np_norm column_cosine) (1 / 10 ^ 8)
                     then [ColumnNotQuiteUnit] else [])
      in Inr (w1 @ w2 @ w3))"

fun first_error :: "(error + unit) list \<Rightarrow> error + unit" where
  "first_error [] = Inr ()"
| "first_error (Inl e # rs) = Inl e"
| "first_error (Inr u # rs) = first_error rs"

definition validate_slices_form_uniform_grid :: "dataset list \<Rightarrow> error + warning list" where
  "validate_slices_form_uniform_grid slice_datasets =
     (case first_error
         [slice_attribute_equal slice_datasets ''Modality'' Modality,
          slice_attribute_equal slice_datasets ''SOPClassUID'' SOPClassUID,
          slice_attribute_equal slice_datasets ''SeriesInstanceUID'' SeriesInstanceUID,
          slice_attribute_equal slice_datasets ''Rows'' Rows,
          slice_attribute_equal slice_datasets ''Columns'' Columns,
          slice_attribute_equal slice_datasets ''ImageOrientationPatient'' ImageOrientationPatient,
          slice_attribute_equal slice_datasets ''PixelSpacing'' PixelSpacing,
          slice_attribute_equal slice_datasets ''PixelRepresentation'' PixelRepresentation,
          slice_attribute_equal slice_datasets ''BitsAllocated'' BitsAllocated,
          slice_attribute_equal slice_datasets ''BitsStored'' BitsStored,
          slice_attribute_equal slice_datasets ''HighBit'' HighBit] of
        Inl e \<Rightarrow> Inl e
      | Inr _ \<Rightarrow>
          (case validate_image_orientation (ImageOrientationPatient (hd slice_datasets)) of
             Inl e \<Rightarrow> Inl e
           | Inr ws1 \<Rightarrow>
               (case slice_positions slice_datasets of
                  Inl e \<Rightarrow> Inl e
                | Inr positions \<Rightarrow>
                    (case check_for_missing_slices positions of
                       Inl e \<Rightarrow> Inl e
                     | Inr ws2 \<Rightarrow> Inr (ws1 @ ws2)))))"

text \<open>
  Matrices are lists of rows. \<^verbatim>\<open>m[:3, j] = v\<close> is \<open>set_column\<close>, \<^verbatim>\<open>m[i, j] = x\<close> is
  \<open>set_entry\<close>; \<open>column\<close> reads a column.
\<close>

type_synonym matrix = "real list list"

definition vec_list :: "vec3 \<Rightarrow> real list" where
  "vec_list v = (case v of (a, b, c) \<Rightarrow> [a, b, c])"

definition scale :: "vec3 \<Rightarrow> real \<Rightarrow> vec3" where
  "scale v x = (case v of (a, b, c) \<Rightarrow> (a * x, b * x, c * x))"

definition np_identity :: "nat \<Rightarrow> matrix" where
  "np_identity n = map (\<lambda>i. map (\<lambda>j. if i = j then 1 else 0) [0..<n]) [0..<n]"

definition set_column :: "matrix \<Rightarrow> nat \<Rightarrow> real list \<Rightarrow> matrix" where
  "set_column m j v = map (\<lambda>(i, row). if i < length v then row[j := v ! i] else row) (enumerate 0 m)"

definition set_entry :: "matrix \<Rightarrow> nat \<Rightarrow> nat \<Rightarrow> real \<Rightarrow> matrix" where
  "set_entry m i j x = m[i := (m ! i)[j := x]]"

definition np_transpose :: "matrix \<Rightarrow> matrix" where
  "np_transpose m = map (\<lambda>j. map (\<lambda>row. row ! j) m) [0..<length (hd m)]"

definition column :: "matrix \<Rightarrow> nat \<Rightarrow> real list" where
  "column m j = map (\<lambda>row. row ! j) m"

text \<open>\<^verbatim>\<open>_ijk_to_patient_xyz_transform_matrix\<close>: the transform, the rotation and the scaling.\<close>

definition ijk_to_patient_xyz_transform_matrix ::
    "dataset list \<Rightarrow> error + matrix \<times> matrix \<times> matrix" where
  "ijk_to_patient_xyz_transform_matrix slice_datasets =
     (case sort_by_slice_spacing slice_datasets of
        Inl e \<Rightarrow> Inl e
      | Inr [] \<Rightarrow> Inl IndexError
      | Inr (first_dataset # _) \<Rightarrow>
          (let (row_cosine, column_cosine, slice_cosine) =
                 extract_cosines (ImageOrientationPatient first_dataset);
               (row_spacing, column_spacing) = PixelSpacing first_dataset
           in case slice_spacing slice_datasets of
                Inl e \<Rightarrow> Inl e
              | Inr spacing \<Rightarrow>
                  (let transform0 = np_identity 4;
                       rotation0 = np_identity 3;
                       scaling0 = np_identity 3;
                       transform1 = set_column transform0 0 (vec_list (scale row_cosine column_spacing));
                       transform2 = set_column transform1 1 (vec_list (scale column_cosine row_spacing));
                       transform3 = set_column transform2 2 (vec_list (scale slice_cosine spacing));
                       transform = set_column transform3 3 (vec_list (ImagePositionPatient first_dataset));
                       rotation1 = set_column rotation0 0 (vec_list row_cosine);
                       rotation2 = set_column rotation1 1 (vec_list column_cosine);
                       rotation3 = set_column rotation2 2 (vec_list slice_cosine);
                       rotation = np_transpose rotation3;
                       scaling1 = set_entry scaling0 0 0 column_spacing;
                       scaling2 = set_entry scaling1 1 1 row_spacing;
                       scaling = set_entry scaling2 2 2 spacing
                   in Inr (transform, rotation, scaling))))"

text \<open>\<^verbatim>\<open>_requires_rescaling\<close>, and the two \<^verbatim>\<open>getattr\<close> with their defaults 1 and 0.\<close>

definition requires_rescaling :: "dataset \<Rightarrow> bool" where
  "requires_rescaling d \<longleftrightarrow> RescaleSlope d \<noteq> None \<or> RescaleIntercept d \<noteq> None"

definition rescale_slope :: "dataset \<Rightarrow> real" where
  "rescale_slope d = (case RescaleSlope d of None \<Rightarrow> 1 | Some s \<Rightarrow> s)"

definition rescale_intercept :: "dataset \<Rightarrow> real" where
  "rescale_intercept d = (case RescaleIntercept d of None \<Rightarrow> 0 | Some s \<Rightarrow> s)"

text \<open>
  What each branch of \<^verbatim>\<open>_merge_slice_pixel_arrays\<close> assigns to \<^verbatim>\<open>voxels[:, :, k]\<close>:
  \<^verbatim>\<open>dataset.pixel_array.T.astype(np.float32)*slope + intercept\<close>, or
  \<^verbatim>\<open>dataset.pixel_array.T\<close>.
\<close>

definition rescaled_slice :: "dataset \<Rightarrow> ndarray" where
  "rescaled_slice d =
     np_add_scalar (np_mul_scalar (astype (np_T (pixel_array d)) Float32) (rescale_slope d))
       (rescale_intercept d)"

definition raw_slice :: "dataset \<Rightarrow> ndarray" where
  "raw_slice d = np_T (pixel_array d)"

text \<open>\<^verbatim>\<open>for k, dataset in enumerate(sorted_slice_datasets): voxels[:, :, k] = ...\<close>\<close>

fun fill_voxels :: "(dataset \<Rightarrow> ndarray) \<Rightarrow> nat \<Rightarrow> dataset list \<Rightarrow> ndarray \<Rightarrow> error + ndarray" where
  "fill_voxels g k [] voxels = Inr voxels"
| "fill_voxels g k (d # ds) voxels =
     (case setitem_slice voxels k (g d) of
        Inl e \<Rightarrow> Inl e
      | Inr voxels' \<Rightarrow> fill_voxels g (Suc k) ds voxels')"

text \<open>\<^verbatim>\<open>_merge_slice_pixel_arrays\<close> and \<^verbatim>\<open>combine_slices\<close>.\<close>

definition merge_slice_pixel_arrays :: "(nat \<Rightarrow> real) \<Rightarrow> dataset list \<Rightarrow> error + ndarray" where
  "merge_slice_pixel_arrays mem slice_datasets =
     (case slice_datasets of
        [] \<Rightarrow> Inl IndexError
      | first_dataset # _ \<Rightarrow>
          (let num_rows = Rows first_dataset;
               num_columns = Columns first_dataset;
               num_slices = length slice_datasets
           in case sort_by_slice_spacing slice_datasets of
                Inl e \<Rightarrow> Inl e
              | Inr sorted_slice_datasets \<Rightarrow>
                  if list_ex requires_rescaling sorted_slice_datasets
                  then fill_voxels rescaled_slice 0 sorted_slice_datasets
                         (np_empty mem [num_columns, num_rows, num_slices] Float32)
                  else fill_voxels raw_slice 0 sorted_slice_datasets
                         (np_empty mem [num_columns, num_rows, num_slices]
                            (dtype (pixel_array first_dataset)))))"

definition combine_slices ::
    "(nat \<Rightarrow> real) \<Rightarrow> dataset list \<Rightarrow> error + ndarray \<times> matrix \<times> matrix \<times> matrix" where
  "combine_slices mem slice_datasets =
     (if slice_datasets = [] then Inl EmptyInput
      else case validate_slices_form_uniform_grid slice_datasets of
             Inl e \<Rightarrow> Inl e
           | Inr ws \<Rightarrow>
               (case merge_slice_pixel_arrays mem slice_datasets of
                  Inl e \<Rightarrow> Inl e
                | Inr voxels \<Rightarrow>
                    (case ijk_to_patient_xyz_transform_matrix slice_datasets of
                       Inl e \<Rightarrow> Inl e
                     | Inr (transform, rotation, scaling) \<Rightarrow>
                         Inr (voxels, transform, rotation, scaling))))"

text \<open>
  The words of the specification. The key of a slice is its position projected on
  the normal of the orientation \<open>io\<close>; the maximum relative deviation of a list of
  steps is the largest \<^verbatim>\<open>|step - first step| / |first step|\<close>.
\<close>

definition projection :: "vec3 \<times> vec3 \<Rightarrow> dataset \<Rightarrow> real" where
  "projection io d = np_dot (np_cross (fst io) (snd io)) (ImagePositionPatient d)"

definition max_relative_deviation :: "real list \<Rightarrow> real" where
  "max_relative_deviation steps = Max ((\<lambda>d. \<bar>d - hd steps\<bar> / \<bar>hd steps\<bar>) ` set steps)"

text \<open>
  Slices for the scenarios of the specification: 2 by 2 pixels, cosines (1,0,0) and
  (0,1,0), spacing (1,1), signed 16-bit pixels. \<open>scenario_slices\<close> stand at
  z = 4, 0, 2 (given out of order), \<open>gap_slices\<close> at z = 0, 10, 21, and
  \<open>rescaled_slices\<close> are the first with a slope on one slice, an intercept on
  another and neither on the third.
\<close>

definition scenario_slice :: "string \<Rightarrow> vec3 \<Rightarrow> real list \<Rightarrow> dataset" where
  "scenario_slice uid pos pixels =
     \<lparr>SOPInstanceUID = uid, Modality = ''CT'', SOPClassUID = ''1.2.840.10008.5.1.4.1.1.2'',
      SeriesInstanceUID = ''1.2.3'', Rows = 2, Columns = 2,
      ImageOrientationPatient = ((1, 0, 0), (0, 1, 0)), PixelSpacing = (1, 1),
      ImagePositionPatient = pos, PixelRepresentation = 1, BitsAllocated = 16,
      BitsStored = 16, HighBit = 15, RescaleSlope = None, RescaleIntercept = None,
      pixel_array = \<lparr>shape = [2, 2], dtype = Int16, flat = pixels\<rparr>\<rparr>"

definition scenario_slices :: "dataset list" where
  "scenario_slices =
     [scenario_slice ''1.2.3.3'' (0, 0, 4) [9, 10, 11, 12],
      scenario_slice ''1.2.3.1'' (0, 0, 0) [1, 2, 3, 4],
      scenario_slice ''1.2.3.2'' (0, 0, 2) [5, 6, 7, 8]]"

definition gap_slices :: "dataset list" where
  "gap_slices =
     [scenario_slice ''1.2.3.1'' (0, 0, 0) [1, 2, 3, 4],
      scenario_slice ''1.2.3.2'' (0, 0, 10) [5, 6, 7, 8],
      scenario_slice ''1.2.3.3'' (0, 0, 21) [9, 10, 11, 12]]"

definition rescaled_slices :: "dataset list" where
  "rescaled_slices =
     [(scenario_slice ''1.2.3.3'' (0, 0, 4) [9, 10, 11, 12])\<lparr>RescaleSlope := Some 2\<rparr>,
      (scenario_slice ''1.2.3.1'' (0, 0, 0) [1, 2, 3, 4])\<lparr>RescaleIntercept := Some (- 1024)\<rparr>,
      scenario_slice ''1.2.3.2'' (0, 0, 2) [5, 6, 7, 8]]"

section \<open>The instance accumulator of \<^verbatim>\<open>DataManager\<close>\<close>

text \<open>
  The fields of \<^verbatim>\<open>DataManager\<close> that decide which reconstructed instances are held
  in memory: the list \<^verbatim>\<open>self.instances\<close>, the flag \<^verbatim>\<open>self.__warned\<close> and the option
  \<^verbatim>\<open>self.keep_instances\<close>. The instances themselves are opaque.
\<close>

record 'm DataManager =
  instances :: "'m list"
  warned :: bool
  keep_instances :: bool

text \<open>\<^verbatim>\<open>__init__\<close>: no instance held, no warning given yet.\<close>

definition DataManager_init :: "bool \<Rightarrow> 'm DataManager" where
  "DataManager_init keep = \<lparr>instances = [], warned = False, keep_instances = keep\<rparr>"

text \<open>
  \<^verbatim>\<open>process_all_niftis\<close>, one turn of its loop over the image files: the check of the
  threshold only warns and sets the flag; the instance built from the file is appended
  whenever \<^verbatim>\<open>keep_instances\<close> is set.
\<close>

definition nifti_step :: "'m DataManager \<Rightarrow> 'm \<Rightarrow> 'm DataManager" where
  "nifti_step dm inst =
     (let dm1 = (if length (instances dm) > 10 \<and> \<not> warned dm
                 then dm\<lparr>warned := True\<rparr> else dm)
      in if keep_instances dm1 then dm1\<lparr>instances := instances dm1 @ [inst]\<rparr> else dm1)"

definition process_all_niftis :: "'m DataManager \<Rightarrow> 'm list \<Rightarrow> 'm DataManager" where
  "process_all_niftis dm insts = foldl nifti_step dm insts"

text \<open>
  \<^verbatim>\<open>process_all_dicoms\<close> extends the accumulator twice, with the results \<^verbatim>\<open>ray.get(ids)\<close>
  of the first batch of tasks and with those of the tasks still pending after the
  distribution loop. The two result lists are parameters here (the scheduling is ray's).
  The first extension is under \<^verbatim>\<open>elif self.keep_instances\<close>, the second under a plain
  \<^verbatim>\<open>else\<close>.
\<close>

definition dicom_first_batch :: "'m DataManager \<Rightarrow> 'm list \<Rightarrow> 'm DataManager" where
  "dicom_first_batch dm batch =
     (if length (instances dm) > 10 \<and> \<not> warned dm then dm\<lparr>warned := True\<rparr>
      else if keep_instances dm then dm\<lparr>instances := instances dm @ batch\<rparr>
      else dm)"

definition dicom_last_batch :: "'m DataManager \<Rightarrow> 'm list \<Rightarrow> 'm DataManager" where
  "dicom_last_batch dm batch =
     (if length (instances dm) > 10 \<and> \<not> warned dm then dm\<lparr>warned := True\<rparr>
      else dm\<lparr>instances := instances dm @ batch\<rparr>)"

definition process_all_dicoms :: "'m DataManager \<Rightarrow> 'm list \<Rightarrow> 'm list \<Rightarrow> 'm DataManager" where
  "process_all_dicoms dm batch1 batch2 = dicom_last_batch (dicom_first_batch dm batch1) batch2"

section \<open>Association of RTSTRUCT files to series (\<^verbatim>\<open>DataManager.__associate_rt_stuct\<close>)\<close>

text \<open>
  The dataclass \<^verbatim>\<open>DataManager.DICOM\<close>. The \<open>stack\<close> lists hold, per RTSTRUCT file, its
  referenced series UID, its path and its frame-of-reference UID; the \<open>cell\<close> lists
  hold, per image series, its series UID, the RTSTRUCT paths linked to it, its image
  paths and its frame-of-reference UID. UIDs and paths are strings.
\<close>

record DICOM =
  stack_series_rs :: "string list"
  stack_path_rs :: "string list"
  stack_frame_rs :: "string list"
  cell_series_id :: "string list"
  cell_path_rs :: "string list list"
  cell_path_images :: "string list list"
  cell_frame_rs :: "string list"
  cell_frame_id :: "string list"

text \<open>
  \<^verbatim>\<open>[len(cell)] if uid not in cell else [i for i, e in enumerate(cell) if e == uid]\<close>
\<close>

definition find_uid_cell_index :: "string \<Rightarrow> string list \<Rightarrow> nat list" where
  "find_uid_cell_index uid cell =
     (if uid \<notin> set cell then [length cell]
      else filter (\<lambda>i. cell ! i = uid) [0..<length cell])"

text \<open>
  \<^verbatim>\<open>for n in range(len(ind)): cell_path_rs[ind[n]] += [path]\<close>. Reading
  \<^verbatim>\<open>cell_path_rs[j]\<close> raises \<^verbatim>\<open>IndexError\<close> for \<open>j\<close> out of range; what was appended
  before stays appended. The result is the list as it stands and whether the loop
  ran to its end.
\<close>

fun append_path :: "nat list \<Rightarrow> string \<Rightarrow> string list list \<Rightarrow> string list list \<times> bool" where
  "append_path [] p cells = (cells, True)"
| "append_path (j # js) p cells =
     (if j < length cells then append_path js p (cells[j := cells ! j @ [p]])
      else (cells, False))"

text \<open>
  The body of the loop for the \<open>i\<close>-th RTSTRUCT file: the \<^verbatim>\<open>try\<close> block matches by
  series UID; any exception in it enters the handler, which matches by frame UID. An
  exception raised inside the handler is not caught by anything.
\<close>

definition associate_one :: "DICOM \<Rightarrow> nat \<Rightarrow> error + DICOM" where
  "associate_one d i =
     (let (cells1, ok1) =
            (if i < length (stack_series_rs d)
             then append_path (find_uid_cell_index (stack_series_rs d ! i) (cell_series_id d))
                    (stack_path_rs d ! i) (cell_path_rs d)
             else (cell_path_rs d, False))
      in if ok1 then Inr (d\<lparr>cell_path_rs := cells1\<rparr>)
         else if i < length (stack_frame_rs d)
         then (let (cells2, ok2) =
                     append_path (find_uid_cell_index (stack_frame_rs d ! i) (cell_frame_id d))
                       (stack_path_rs d ! i) cells1
               in if ok2 then Inr (d\<lparr>cell_path_rs := cells2\<rparr>) else Inl IndexError)
         else Inl IndexError)"

fun associate_from :: "nat list \<Rightarrow> DICOM \<Rightarrow> error + DICOM" where
  "associate_from [] d = Inr d"
| "associate_from (i # is) d =
     (case associate_one d i of Inl e \<Rightarrow> Inl e | Inr d' \<Rightarrow> associate_from is d')"

text \<open>\<^verbatim>\<open>for i in trange(0, n_rs)\<close> with \<^verbatim>\<open>n_rs = len(stack_path_rs)\<close>.\<close>

definition associate_rt_stuct :: "DICOM \<Rightarrow> error + DICOM" where
  "associate_rt_stuct d = associate_from [0..<length (stack_path_rs d)] d"

section \<open>Properties of the ROI store\<close>

lemma dict_get_empty: "dict_get [] key = Inr EmptyDict"
  by (simp add: dict_get_def)

lemma dict_get_update:
  "dict_get (AList.update (py_str (Some k)) v d) (Some k) = Inr (Stored v)"
proof -
  have "AList.update (py_str (Some k)) v d \<noteq> []"
    by (cases d) auto
  then show ?thesis
    by (simp add: dict_get_def update_conv')
qed

lemma heap_get_set:
  "a < length h \<Longrightarrow> dict_get (heap_set h a (Some k) v ! a) (Some k) = Inr (Stored v)"
  by (simp add: heap_set_def dict_get_update)

lemma ROI_init_aliased: "d \<noteq> [] \<Longrightarrow> aliased (ROI_init ix (Some d))"
  by (simp add: ROI_init_def aliased_def)

lemma aliased_update_ROIname: "aliased s \<Longrightarrow> aliased (update_ROIname s key v)"
  by (simp add: aliased_def update_ROIname_def heap_set_def)

lemma aliased_update_nameSet: "aliased s \<Longrightarrow> aliased (update_nameSet s key v)"
  by (simp add: aliased_def update_nameSet_def heap_set_def)

lemma aliased_update_nameSetInfo: "aliased s \<Longrightarrow> aliased (update_nameSetInfo s key v)"
  by (simp add: aliased_def update_nameSetInfo_def heap_set_def)

lemma aliased_update_indexes: "aliased s \<Longrightarrow> aliased (update_indexes s key v)"
  by (simp add: aliased_def update_indexes_def)

lemma aliased_reads:
  assumes "aliased s"
  shows "get_ROIname (update_nameSet s (Some k) v) (Some k) = Inr (Stored v)"
    and "get_nameSetInfo (update_nameSet s (Some k) v) (Some k) = Inr (Stored v)"
    and "get_nameSet (update_ROIname s (Some k) v) (Some k) = Inr (Stored v)"
    and "get_nameSetInfo (update_ROIname s (Some k) v) (Some k) = Inr (Stored v)"
    and "get_ROIname (update_nameSetInfo s (Some k) v) (Some k) = Inr (Stored v)"
    and "get_nameSet (update_nameSetInfo s (Some k) v) (Some k) = Inr (Stored v)"
  using assms
  by (simp_all add: aliased_def get_ROIname_def get_nameSet_def get_nameSetInfo_def
      update_nameSet_def update_ROIname_def update_nameSetInfo_def heap_get_set)

text \<open>
  A getter on a store that holds nothing under that attribute returns \<^verbatim>\<open>{}\<close>, and so
  does a getter called with \<^verbatim>\<open>None\<close>: the two cases the guard of the getters covers.
\<close>

lemma get_indexes_fresh: "get_indexes (ROI_init None names) key = Inr EmptyDict"
  by (simp add: get_indexes_def ROI_init_def dict_get_empty Let_def split: option.splits)

lemma get_indexes_None: "get_indexes s None = Inr EmptyDict"
  by (simp add: get_indexes_def dict_get_def)

text \<open>
  Claim C6. The claim: a getter called with a key that was never set returns an empty
  result and raises nothing, also when the store holds entries under other keys. The
  code: after \<^verbatim>\<open>update_indexes(0, [5])\<close> on a fresh store, \<^verbatim>\<open>get_indexes(1)\<close> passes the
  guard (the dictionary is not empty, the key is not \<^verbatim>\<open>None\<close>) and reads
  \<^verbatim>\<open>self.indexes['1']\<close>, which raises \<^verbatim>\<open>KeyError\<close>; \<^verbatim>\<open>get_ROIname\<close> does the same.
\<close>

theorem get_unset_key_raises:
  "get_indexes (update_indexes (ROI_init None None :: string ROI) (Some 0) [5]) (Some 1)
     = Inl KeyError
   \<and> get_ROIname (update_ROIname (ROI_init None None :: string ROI) (Some 0) ''GTV'') (Some 1)
     = Inl KeyError"
  by (simp add: get_indexes_def update_indexes_def get_ROIname_def update_ROIname_def
      heap_set_def ROI_init_def dict_get_def py_str_def digits.simps)

text \<open>
  Claim C10. When the store is constructed with a non-empty \<^verbatim>\<open>roi_names\<close> dictionary,
  the attributes \<^verbatim>\<open>roi_names\<close>, \<^verbatim>\<open>nameSet\<close> and \<^verbatim>\<open>nameSetInfo\<close> are the same object, and
  they stay so under every update; hence a value written under an integer key through
  any one of the three setters is what the getters of the other two return for that key.
\<close>

theorem roi_names_aliasing:
  assumes "d \<noteq> []"
  shows "roi_names (ROI_init ix (Some d)) = nameSet (ROI_init ix (Some d))
       \<and> nameSetInfo (ROI_init ix (Some d)) = nameSet (ROI_init ix (Some d))
       \<and> names_heap (ROI_init ix (Some d)) ! nameSet (ROI_init ix (Some d)) = d
       \<and> get_ROIname (update_nameSet (ROI_init ix (Some d)) (Some k) v) (Some k) = Inr (Stored v)
       \<and> get_nameSetInfo (update_nameSet (ROI_init ix (Some d)) (Some k) v) (Some k) = Inr (Stored v)
       \<and> get_nameSet (update_ROIname (ROI_init ix (Some d)) (Some k) v) (Some k) = Inr (Stored v)
       \<and> get_nameSetInfo (update_ROIname (ROI_init ix (Some d)) (Some k) v) (Some k) = Inr (Stored v)
       \<and> get_ROIname (update_nameSetInfo (ROI_init ix (Some d)) (Some k) v) (Some k) = Inr (Stored v)
       \<and> get_nameSet (update_nameSetInfo (ROI_init ix (Some d)) (Some k) v) (Some k) = Inr (Stored v)"
proof -
  have a: "aliased (ROI_init ix (Some d))"
    using assms by (rule ROI_init_aliased)
  have "names_heap (ROI_init ix (Some d)) ! nameSet (ROI_init ix (Some d)) = d"
    using assms by (simp add: ROI_init_def)
  with a aliased_reads [OF a] show ?thesis
    by (simp add: aliased_def)
qed

theorem roi_names_aliasing_witness:
  "[(''0'', ''GTV'')] \<noteq> []
   \<and> get_ROIname (update_nameSet (ROI_init None (Some [(''0'', ''GTV'')])) (Some 3) ''set'')
       (Some 3) = Inr (Stored ''set'')
   \<and> get_nameSetInfo (update_nameSet (ROI_init None (Some [(''0'', ''GTV'')])) (Some 3) ''set'')
       (Some 3) = Inr (Stored ''set'')"
  using roi_names_aliasing [of "[(''0'', ''GTV'')]" None 3 "''set''"] by simp

section \<open>Properties of the instance accumulator\<close>

lemma nifti_step_keep:
  "keep_instances dm \<Longrightarrow>
     instances (nifti_step dm x) = instances dm @ [x] \<and> keep_instances (nifti_step dm x)"
  by (simp add: nifti_step_def Let_def)

lemma process_all_niftis_keeps_all:
  "keep_instances dm \<Longrightarrow> instances (process_all_niftis dm xs) = instances dm @ xs"
  unfolding process_all_niftis_def
proof (induction xs arbitrary: dm)
  case Nil
  then show ?case by simp
next
  case (Cons x xs)
  from Cons.prems have k: "keep_instances (nifti_step dm x)"
    and i: "instances (nifti_step dm x) = instances dm @ [x]"
    by (simp_all add: nifti_step_keep)
  from Cons.IH [OF k] i show ?case by simp
qed

lemma dicom_last_batch_after_warning:
  "warned dm \<Longrightarrow> instances (dicom_last_batch dm batch) = instances dm @ batch"
  by (simp add: dicom_last_batch_def)

text \<open>
  Claim C9. The claim: once more than ten instances are held, every further completed
  instance is dropped with a warning, so the accumulator stays bounded. The code: the
  NIfTI loop only warns and appends every instance all the same, so twelve files leave
  twelve instances; the DICOM path drops one batch when it warns and, the flag being
  set from then on, extends the list again with the next one.
\<close>

theorem accumulator_grows_past_ten:
  "instances (process_all_niftis (DataManager_init True) [1, 2, 3, 4, 5, 6, 7, 8, 9, 10, 11, 12 :: nat])
     = [1, 2, 3, 4, 5, 6, 7, 8, 9, 10, 11, 12]
   \<and> warned (process_all_niftis (DataManager_init True) [1, 2, 3, 4, 5, 6, 7, 8, 9, 10, 11, 12 :: nat])
   \<and> instances (process_all_dicoms
        \<lparr>instances = [1, 2, 3, 4, 5, 6, 7, 8, 9, 10, 11 :: nat], warned = False,
         keep_instances = True\<rparr> [12] [13, 14])
      = [1, 2, 3, 4, 5, 6, 7, 8, 9, 10, 11, 13, 14]"
  by (simp add: process_all_niftis_def nifti_step_def DataManager_init_def Let_def
      process_all_dicoms_def dicom_first_batch_def dicom_last_batch_def)

section \<open>Properties of the RTSTRUCT association\<close>

lemma append_path_all:
  "distinct js \<Longrightarrow> list_all (\<lambda>j. j < length cells) js \<Longrightarrow>
     append_path js p cells =
       (map (\<lambda>j. if j \<in> set js then cells ! j @ [p] else cells ! j) [0..<length cells], True)"
proof (induction js arbitrary: cells)
  case Nil
  then show ?case by (simp add: map_nth)
next
  case (Cons j js)
  let ?c = "cells[j := cells ! j @ [p]]"
  from Cons.prems have j: "j < length cells" and nj: "j \<notin> set js"
    and d: "distinct js" and a: "list_all (\<lambda>j. j < length ?c) js"
    by simp_all
  have "append_path (j # js) p cells = append_path js p ?c"
    using j by simp
  also have "\<dots> = (map (\<lambda>i. if i \<in> set js then ?c ! i @ [p] else ?c ! i) [0..<length ?c], True)"
    by (rule Cons.IH [OF d a])
  also have "map (\<lambda>i. if i \<in> set js then ?c ! i @ [p] else ?c ! i) [0..<length ?c]
           = map (\<lambda>i. if i \<in> set (j # js) then cells ! i @ [p] else cells ! i) [0..<length cells]"
    using nj j by (auto simp: nth_list_update)
  finally show ?case .
qed

lemma append_path_out_of_range:
  "append_path [length cells] p cells = (cells, False)"
  by simp

lemma find_uid_found:
  "uid \<in> set cell \<Longrightarrow>
     distinct (find_uid_cell_index uid cell)
     \<and> list_all (\<lambda>j. j < length cell) (find_uid_cell_index uid cell)
     \<and> set (find_uid_cell_index uid cell) = {j. j < length cell \<and> cell ! j = uid}"
  by (auto simp: find_uid_cell_index_def list_all_iff)

text \<open>
  The \<open>i\<close>-th RTSTRUCT file, matched by series UID: its path is appended to the cell of
  every series with that UID, and the frame UID is not looked at.
\<close>

lemma associate_one_by_series:
  assumes "i < length (stack_series_rs d)"
    and "stack_series_rs d ! i \<in> set (cell_series_id d)"
    and "length (cell_path_rs d) = length (cell_series_id d)"
  shows "associate_one d i =
     Inr (d\<lparr>cell_path_rs :=
       map (\<lambda>j. if cell_series_id d ! j = stack_series_rs d ! i
                 then cell_path_rs d ! j @ [stack_path_rs d ! i] else cell_path_rs d ! j)
         [0..<length (cell_path_rs d)]\<rparr>)"
proof -
  let ?js = "find_uid_cell_index (stack_series_rs d ! i) (cell_series_id d)"
  from find_uid_found [OF assms(2)] assms(3)
  have f: "distinct ?js" "list_all (\<lambda>j. j < length (cell_path_rs d)) ?js"
    "set ?js = {j. j < length (cell_series_id d) \<and> cell_series_id d ! j = stack_series_rs d ! i}"
    by simp_all
  have "append_path ?js (stack_path_rs d ! i) (cell_path_rs d) =
      (map (\<lambda>j. if j \<in> set ?js then cell_path_rs d ! j @ [stack_path_rs d ! i]
                 else cell_path_rs d ! j) [0..<length (cell_path_rs d)], True)"
    by (rule append_path_all [OF f(1) f(2)])
  also have "map (\<lambda>j. if j \<in> set ?js then cell_path_rs d ! j @ [stack_path_rs d ! i]
                 else cell_path_rs d ! j) [0..<length (cell_path_rs d)]
      = map (\<lambda>j. if cell_series_id d ! j = stack_series_rs d ! i
                 then cell_path_rs d ! j @ [stack_path_rs d ! i] else cell_path_rs d ! j)
         [0..<length (cell_path_rs d)]"
    using assms(3) by (auto simp: f(3))
  finally show ?thesis
    using assms(1) by (simp add: associate_one_def)
qed

text \<open>
  The \<open>i\<close>-th RTSTRUCT file, its series UID unknown and its frame UID known: the
  handler appends its path to the cell of every series with that frame UID, however
  many they are.
\<close>

lemma associate_one_by_frame:
  assumes "i < length (stack_series_rs d)" and "i < length (stack_frame_rs d)"
    and "stack_series_rs d ! i \<notin> set (cell_series_id d)"
    and "stack_frame_rs d ! i \<in> set (cell_frame_id d)"
    and "length (cell_path_rs d) = length (cell_series_id d)"
    and "length (cell_frame_id d) = length (cell_series_id d)"
  shows "associate_one d i =
     Inr (d\<lparr>cell_path_rs :=
       map (\<lambda>j. if cell_frame_id d ! j = stack_frame_rs d ! i
                 then cell_path_rs d ! j @ [stack_path_rs d ! i] else cell_path_rs d ! j)
         [0..<length (cell_path_rs d)]\<rparr>)"
proof -
  let ?js = "find_uid_cell_index (stack_frame_rs d ! i) (cell_frame_id d)"
  have first: "append_path (find_uid_cell_index (stack_series_rs d ! i) (cell_series_id d))
      (stack_path_rs d ! i) (cell_path_rs d) = (cell_path_rs d, False)"
    using assms(3,5) by (simp add: find_uid_cell_index_def)
  from find_uid_found [OF assms(4)] assms(5,6)
  have f: "distinct ?js" "list_all (\<lambda>j. j < length (cell_path_rs d)) ?js"
    "set ?js = {j. j < length (cell_frame_id d) \<and> cell_frame_id d ! j = stack_frame_rs d ! i}"
    by simp_all
  have "append_path ?js (stack_path_rs d ! i) (cell_path_rs d) =
      (map (\<lambda>j. if j \<in> set ?js then cell_path_rs d ! j @ [stack_path_rs d ! i]
                 else cell_path_rs d ! j) [0..<length (cell_path_rs d)], True)"
    by (rule append_path_all [OF f(1) f(2)])
  also have "map (\<lambda>j. if j \<in> set ?js then cell_path_rs d ! j @ [stack_path_rs d ! i]
                 else cell_path_rs d ! j) [0..<length (cell_path_rs d)]
      = map (\<lambda>j. if cell_frame_id d ! j = stack_frame_rs d ! i
                 then cell_path_rs d ! j @ [stack_path_rs d ! i] else cell_path_rs d ! j)
         [0..<length (cell_path_rs d)]"
    using assms(5,6) by (auto simp: f(3))
  finally show ?thesis
    using assms(1,2) first by (simp add: associate_one_def)
qed

text \<open>
  The \<open>i\<close>-th RTSTRUCT file, neither UID known: the lookup in the handler yields the
  index one past the last cell, and the \<^verbatim>\<open>IndexError\<close> of reading that cell leaves
  the function.
\<close>

lemma associate_one_unmatched:
  assumes "stack_series_rs d ! i \<notin> set (cell_series_id d)"
    and "stack_frame_rs d ! i \<notin> set (cell_frame_id d)"
    and "length (cell_path_rs d) = length (cell_series_id d)"
    and "length (cell_frame_id d) = length (cell_series_id d)"
  shows "associate_one d i = Inl IndexError"
  using assms by (simp add: associate_one_def find_uid_cell_index_def)

text \<open>
  Claim C3. The claim: a mask file is matched by series UID first and by frame UID if
  that fails, a file matching several series is linked to all of them, and a file that
  matches nothing yields no association and no error. The code does the first two
  (\<open>associate_one_by_series\<close>, \<open>associate_one_by_frame\<close>). On one CT series
  (\<^verbatim>\<open>S1\<close>, frame \<^verbatim>\<open>F1\<close>) and one RTSTRUCT file whose series UID was not found and whose
  frame UID is \<^verbatim>\<open>F9\<close>, the association raises \<^verbatim>\<open>IndexError\<close>.
\<close>

theorem unmatched_mask_file_raises:
  "associate_rt_stuct
     \<lparr>stack_series_rs = [''NotFound''], stack_path_rs = [''rs.dcm''],
      stack_frame_rs = [''F9''], cell_series_id = [''S1''], cell_path_rs = [[]],
      cell_path_images = [[''ct1.dcm'']], cell_frame_rs = [], cell_frame_id = [''F1'']\<rparr>
   = Inl IndexError"
  by (simp add: associate_rt_stuct_def associate_one_def find_uid_cell_index_def)

section \<open>Properties of array indexing\<close>

lemma valid_index_Cons:
  "valid_index (n # ns) idx \<longleftrightarrow> (\<exists>j js. idx = j # js \<and> j < n \<and> valid_index ns js)"
  by (cases idx) (auto simp: valid_index_def)

lemma valid_index_Nil [simp]: "valid_index [] idx \<longleftrightarrow> idx = []"
  by (simp add: valid_index_def)

lemma ravel_less: "valid_index s idx \<Longrightarrow> ravel s idx < prod_list s"
proof (induction s arbitrary: idx)
  case Nil
  then show ?case by simp
next
  case (Cons n ns)
  then obtain j js where idx: "idx = j # js" and j: "j < n" and v: "valid_index ns js"
    by (auto simp: valid_index_Cons)
  from Cons.IH [OF v] have r: "ravel ns js < prod_list ns" .
  have "j * prod_list ns + ravel ns js < (j + 1) * prod_list ns"
    using r by simp
  also have "\<dots> \<le> n * prod_list ns"
    using j by (intro mult_le_mono1) simp
  finally show ?case by (simp add: idx)
qed

lemma unravel_ravel: "valid_index s idx \<Longrightarrow> unravel s (ravel s idx) = idx"
proof (induction s arbitrary: idx)
  case Nil
  then show ?case by simp
next
  case (Cons n ns)
  then obtain j js where idx: "idx = j # js" and j: "j < n" and v: "valid_index ns js"
    by (auto simp: valid_index_Cons)
  from ravel_less [OF v] have r: "ravel ns js < prod_list ns" .
  from Cons.IH [OF v] r show ?case
    by (simp add: idx)
qed

lemma valid_unravel: "i < prod_list s \<Longrightarrow> valid_index s (unravel s i)"
proof (induction s arbitrary: i)
  case Nil
  then show ?case by simp
next
  case (Cons n ns)
  from Cons.prems have p: "0 < prod_list ns"
    by (cases "prod_list ns = 0") auto
  from Cons.prems have "i div prod_list ns < n"
    by (simp add: less_mult_imp_div_less)
  moreover have "valid_index ns (unravel ns (i mod prod_list ns))"
    using p by (intro Cons.IH) simp
  ultimately show ?case by (simp add: valid_index_Cons)
qed

lemma ravel_unravel: "i < prod_list s \<Longrightarrow> ravel s (unravel s i) = i"
proof (induction s arbitrary: i)
  case Nil
  then show ?case by simp
next
  case (Cons n ns)
  from Cons.prems have p: "0 < prod_list ns"
    by (cases "prod_list ns = 0") auto
  have "ravel ns (unravel ns (i mod prod_list ns)) = i mod prod_list ns"
    using p by (intro Cons.IH) simp
  then show ?case by simp
qed

lemma valid_index_length: "valid_index s idx \<Longrightarrow> length idx = length s"
  by (simp add: valid_index_def list_all2_lengthD)

lemma length_reindex [simp]: "length (reindex s f xs) = length xs"
  by (simp add: reindex_def)

lemma reindex_reindex:
  assumes "length xs = prod_list s"
    and "\<And>idx. valid_index s idx \<Longrightarrow> valid_index s (g idx)"
  shows "reindex s g (reindex s f xs) = reindex s (f \<circ> g) xs"
proof (rule nth_equalityI)
  show "length (reindex s g (reindex s f xs)) = length (reindex s (f \<circ> g) xs)" by simp
next
  fix i assume "i < length (reindex s g (reindex s f xs))"
  then have i: "i < prod_list s" using assms(1) by simp
  have v: "valid_index s (g (unravel s i))"
    by (rule assms(2) [OF valid_unravel [OF i]])
  have r: "ravel s (g (unravel s i)) < length xs"
    using ravel_less [OF v] assms(1) by simp
  show "reindex s g (reindex s f xs) ! i = reindex s (f \<circ> g) xs ! i"
    using i r assms(1) by (simp add: reindex_def unravel_ravel [OF v])
qed

lemma reindex_ident:
  assumes "length xs = prod_list s"
    and "\<And>idx. valid_index s idx \<Longrightarrow> f idx = idx"
  shows "reindex s f xs = xs"
proof (rule nth_equalityI)
  show "length (reindex s f xs) = length xs" by simp
next
  fix i assume "i < length (reindex s f xs)"
  then have i: "i < prod_list s" using assms(1) by simp
  show "reindex s f xs ! i = xs ! i"
    using i assms(1) by (simp add: reindex_def assms(2) [OF valid_unravel [OF i]] ravel_unravel)
qed


section \<open>Properties of the coordinate conversions\<close>

lemma valid_flip_index:
  assumes "valid_index s idx"
  shows "valid_index s (flip_index s ax idx)"
proof -
  from assms have l: "length idx = length s" and b: "\<And>i. i < length s \<Longrightarrow> idx ! i < s ! i"
    by (auto simp: valid_index_def list_all2_conv_all_nth)
  have "idx[ax := s ! ax - 1 - idx ! ax] ! i < s ! i" if i: "i < length s" for i
  proof (cases "i = ax")
    case True
    with b [OF i] have "idx ! ax < s ! ax" by simp
    then have "s ! ax - 1 - idx ! ax < s ! ax" by arith
    with True i l show ?thesis by simp
  next
    case False
    with b [OF i] show ?thesis by simp
  qed
  with l show ?thesis
    by (simp add: valid_index_def flip_index_def list_all2_conv_all_nth)
qed

lemma flip_index_twice:
  assumes "valid_index s idx"
  shows "flip_index s ax (flip_index s ax idx) = idx"
proof (cases "ax < length idx")
  case True
  from assms have l: "length idx = length s" and b: "\<And>i. i < length s \<Longrightarrow> idx ! i < s ! i"
    by (auto simp: valid_index_def list_all2_conv_all_nth)
  from True l b [of ax] have "s ! ax - 1 - (s ! ax - 1 - idx ! ax) = idx ! ax" by simp
  with True show ?thesis
    by (simp add: flip_index_def)
next
  case False
  then have "length idx \<le> ax" by simp
  then show ?thesis by (simp add: flip_index_def list_update_beyond)
qed

lemma flip_index_commute:
  "flip_index s ax (flip_index s bx idx) = flip_index s bx (flip_index s ax idx)"
  unfolding flip_index_def
  by (cases "ax = bx") (auto simp: list_update_swap)

lemma swap_x_y_twice: "swap_x_y (swap_x_y r) = r"
  by (simp add: swap_x_y_def Let_def)

lemma convert_to_LPS_twice:
  assumes "data v = Some a" and "wf_array a" and "2 \<le> length (shape a)"
  shows "twice convert_to_LPS v = Inr v"
proof -
  let ?s = "shape a"
  let ?f0 = "flip_index ?s 0" let ?f1 = "flip_index ?s 1"
  have len: "length (flat a) = prod_list ?s"
    using assms(2) by (simp add: wf_array_def)
  from assms(3) have ax: "0 < length ?s" "1 < length ?s" "Suc 0 < length ?s"
    by auto
  have pres: "\<And>ax idx. valid_index ?s idx \<Longrightarrow> valid_index ?s (flip_index ?s ax idx)"
    by (rule valid_flip_index)
  have one: "convert_to_LPS v = Inr (v\<lparr>data := Some (a\<lparr>flat := reindex ?s (?f0 \<circ> ?f1) (flat a)\<rparr>)\<rparr>)"
    using assms(1) ax by (simp add: convert_to_LPS_def np_flip_def reindex_reindex [OF len pres])
  have "convert_to_LPS (v\<lparr>data := Some (a\<lparr>flat := reindex ?s (?f0 \<circ> ?f1) (flat a)\<rparr>)\<rparr>)
      = Inr (v\<lparr>data := Some (a\<lparr>flat := reindex ?s ((?f0 \<circ> ?f1) \<circ> (?f0 \<circ> ?f1)) (flat a)\<rparr>)\<rparr>)"
    using ax len
    by (simp add: convert_to_LPS_def np_flip_def reindex_reindex [OF _ pres] comp_assoc)
  moreover have "reindex ?s ((?f0 \<circ> ?f1) \<circ> (?f0 \<circ> ?f1)) (flat a) = flat a"
  proof (rule reindex_ident [OF len])
    fix idx assume v: "valid_index ?s idx"
    have "?f0 (?f1 (?f0 (?f1 idx))) = ?f0 (?f0 (?f1 (?f1 idx)))"
      by (simp add: flip_index_commute)
    also have "\<dots> = idx"
      by (simp add: flip_index_twice v valid_flip_index)
    finally show "((?f0 \<circ> ?f1) \<circ> (?f0 \<circ> ?f1)) idx = idx" by simp
  qed
  ultimately show ?thesis
    using one assms(1) by (simp add: twice_def)
qed


lemma convert_spatialRef_twice:
  "spatialRef v = Some r \<Longrightarrow> twice convert_spatialRef v = Inr v"
  by (simp add: twice_def convert_spatialRef_def swap_x_y_twice)

text \<open>
  Claim C8. Both conversions are involutive. For every volume whose array has at least
  the two axes the conversion flips, \<^verbatim>\<open>convert_to_LPS\<close> applied twice gives back the
  volume; for every volume with a spatial reference, \<^verbatim>\<open>convert_spatialRef\<close> applied
  twice gives back the volume, and one application exchanges the X and Y extents,
  world limits and intrinsic limits and leaves the Z attributes and the image size as
  they were.
\<close>

theorem conversions_involutive:
  "(data v = Some a \<and> wf_array a \<and> 2 \<le> length (shape a) \<longrightarrow> twice convert_to_LPS v = Inr v)
   \<and> (spatialRef v = Some r \<longrightarrow>
        twice convert_spatialRef v = Inr v
      \<and> convert_spatialRef v = Inr (v\<lparr>spatialRef := Some (swap_x_y r)\<rparr>)
      \<and> ImageExtentInWorldX (swap_x_y r) = ImageExtentInWorldY r
      \<and> ImageExtentInWorldY (swap_x_y r) = ImageExtentInWorldX r
      \<and> PixelExtentInWorldX (swap_x_y r) = PixelExtentInWorldY r
      \<and> PixelExtentInWorldY (swap_x_y r) = PixelExtentInWorldX r
      \<and> XWorldLimits (swap_x_y r) = YWorldLimits r
      \<and> YWorldLimits (swap_x_y r) = XWorldLimits r
      \<and> XIntrinsicLimits (swap_x_y r) = YIntrinsicLimits r
      \<and> YIntrinsicLimits (swap_x_y r) = XIntrinsicLimits r
      \<and> ImageExtentInWorldZ (swap_x_y r) = ImageExtentInWorldZ r
      \<and> PixelExtentInWorldZ (swap_x_y r) = PixelExtentInWorldZ r
      \<and> ZWorldLimits (swap_x_y r) = ZWorldLimits r
      \<and> ZIntrinsicLimits (swap_x_y r) = ZIntrinsicLimits r
      \<and> ImageSize (swap_x_y r) = ImageSize r)"
proof (intro conjI impI)
  assume "data v = Some a \<and> wf_array a \<and> 2 \<le> length (shape a)"
  then show "twice convert_to_LPS v = Inr v"
    by (simp add: convert_to_LPS_twice)
next
  assume "spatialRef v = Some r"
  then show "twice convert_spatialRef v = Inr v"
    by (rule convert_spatialRef_twice)
next
  assume "spatialRef v = Some r"
  then show "convert_spatialRef v = Inr (v\<lparr>spatialRef := Some (swap_x_y r)\<rparr>)"
    by (simp add: convert_spatialRef_def)
qed (simp_all add: swap_x_y_def Let_def)

theorem conversions_involutive_witness:
  "twice convert_to_LPS
     \<lparr>spatialRef = None,
      data = Some \<lparr>shape = [2, 3, 2], dtype = Int16,
                   flat = [1, 2, 3, 4, 5, 6, 7, 8, 9, 10, 11, 12]\<rparr>\<rparr>
   = Inr \<lparr>spatialRef = None,
          data = Some \<lparr>shape = [2, 3, 2], dtype = Int16,
                       flat = [1, 2, 3, 4, 5, 6, 7, 8, 9, 10, 11, 12]\<rparr>\<rparr>
   \<and> twice convert_spatialRef
     \<lparr>spatialRef = Some \<lparr>ImageSize = [4, 5, 6],
        PixelExtentInWorldX = 1, PixelExtentInWorldY = 2, PixelExtentInWorldZ = 3,
        ImageExtentInWorldX = 4, ImageExtentInWorldY = 10, ImageExtentInWorldZ = 18,
        XIntrinsicLimits = [1/2, 9/2], YIntrinsicLimits = [1/2, 11/2],
        ZIntrinsicLimits = [1/2, 13/2],
        XWorldLimits = [0, 4], YWorldLimits = [0, 10], ZWorldLimits = [0, 18]\<rparr>,
      data = None\<rparr>
   = Inr \<lparr>spatialRef = Some \<lparr>ImageSize = [4, 5, 6],
        PixelExtentInWorldX = 1, PixelExtentInWorldY = 2, PixelExtentInWorldZ = 3,
        ImageExtentInWorldX = 4, ImageExtentInWorldY = 10, ImageExtentInWorldZ = 18,
        XIntrinsicLimits = [1/2, 9/2], YIntrinsicLimits = [1/2, 11/2],
        ZIntrinsicLimits = [1/2, 13/2],
        XWorldLimits = [0, 4], YWorldLimits = [0, 10], ZWorldLimits = [0, 18]\<rparr>,
      data = None\<rparr>"
  using conversions_involutive
    [of "\<lparr>spatialRef = None,
          data = Some \<lparr>shape = [2, 3, 2], dtype = Int16,
                       flat = [1, 2, 3, 4, 5, 6, 7, 8, 9, 10, 11, 12]\<rparr>\<rparr>"
        "\<lparr>shape = [2, 3, 2], dtype = Int16, flat = [1, 2, 3, 4, 5, 6, 7, 8, 9, 10, 11, 12]\<rparr>"]
    conversions_involutive
    [of "\<lparr>spatialRef = Some \<lparr>ImageSize = [4, 5, 6],
        PixelExtentInWorldX = 1, PixelExtentInWorldY = 2, PixelExtentInWorldZ = 3,
        ImageExtentInWorldX = 4, ImageExtentInWorldY = 10, ImageExtentInWorldZ = 18,
        XIntrinsicLimits = [1/2, 9/2], YIntrinsicLimits = [1/2, 11/2],
        ZIntrinsicLimits = [1/2, 13/2],
        XWorldLimits = [0, 4], YWorldLimits = [0, 10], ZWorldLimits = [0, 18]\<rparr>,
      data = None\<rparr>" _
        "\<lparr>ImageSize = [4, 5, 6],
        PixelExtentInWorldX = 1, PixelExtentInWorldY = 2, PixelExtentInWorldZ = 3,
        ImageExtentInWorldX = 4, ImageExtentInWorldY = 10, ImageExtentInWorldZ = 18,
        XIntrinsicLimits = [1/2, 9/2], YIntrinsicLimits = [1/2, 11/2],
        ZIntrinsicLimits = [1/2, 13/2],
        XWorldLimits = [0, 4], YWorldLimits = [0, 10], ZWorldLimits = [0, 18]\<rparr>"]
  by (simp add: wf_array_def)

section \<open>Properties of the dense mask\<close>

lemma foldl_update_length [simp]:
  "length (foldl (\<lambda>xs j. xs[j := x]) xs ixs) = length xs"
  by (induction ixs arbitrary: xs) simp_all

lemma foldl_update_nth:
  "i < length xs \<Longrightarrow>
     foldl (\<lambda>xs j. xs[j := x]) xs ixs ! i = (if i \<in> set ixs then x else xs ! i)"
  by (induction ixs arbitrary: xs) (auto simp: nth_list_update)

lemma filter_upt_sorted_list:
  assumes "A \<subseteq> {..<n}"
  shows "filter (\<lambda>i. i \<in> A) [0..<n] = sorted_list_of_set A"
proof -
  have fin: "finite A" using assms by (rule finite_subset) simp
  have "sorted (filter (\<lambda>i. i \<in> A) [0..<n])" by (simp add: sorted_wrt_filter)
  moreover have "distinct (filter (\<lambda>i. i \<in> A) [0..<n])" by simp
  moreover have "set (filter (\<lambda>i. i \<in> A) [0..<n]) = A" using assms by auto
  ultimately show ?thesis
    using fin by (metis sorted_list_of_set.idem_if_sorted_distinct)
qed

lemma get_indexes_update:
  "get_indexes (update_indexes roi (Some k) ixs) (Some k) = Inr (Stored ixs)"
  by (simp add: get_indexes_def update_indexes_def dict_get_update)

text \<open>
  Claim C7. An index set stored under a key, all of its indices below the voxel count
  of the volume: the dense mask built from it has the shape of the volume, and the
  positions of the non-zero elements of the flattened mask are the stored indices, each
  once and in ascending order, so the same set.
\<close>

theorem mask_roundtrip:
  assumes "data v = Some a" and "list_all (\<lambda>i. i < prod_list (shape a)) ixs"
  shows "\<exists>m. get_ROI_from_indexes v (update_indexes roi (Some k) ixs) (Some k) = Inr m
           \<and> shape m = shape a
           \<and> np_nonzero (flatten m) = sorted_list_of_set (set ixs)
           \<and> set (np_nonzero (flatten m)) = set ixs"
proof -
  let ?n = "prod_list (shape a)"
  let ?m = "a\<lparr>flat := foldl (\<lambda>xs j. xs[j := 1]) (replicate ?n 0) ixs\<rparr>"
  have sub: "set ixs \<subseteq> {..<?n}"
    using assms(2) by (auto simp: list_all_iff)
  have g: "get_ROI_from_indexes v (update_indexes roi (Some k) ixs) (Some k) = Inr ?m"
    using assms
    by (simp add: get_ROI_from_indexes_def get_indexes_update np_zeros_like_def flatten_def
        setitem_indices_def reshape_def)
  have "np_nonzero (flatten ?m) = filter (\<lambda>i. i \<in> set ixs) [0..<?n]"
    by (auto simp: np_nonzero_def flatten_def foldl_update_nth intro!: filter_cong split: if_splits)
  then have "np_nonzero (flatten ?m) = sorted_list_of_set (set ixs)"
    by (simp add: filter_upt_sorted_list [OF sub])
  with g show ?thesis by simp
qed

theorem mask_roundtrip_witness:
  "list_all (\<lambda>i. i < prod_list [2, 2, 3 :: nat]) [7, 2, 11]
   \<and> (\<exists>m. get_ROI_from_indexes
          \<lparr>spatialRef = None,
           data = Some \<lparr>shape = [2, 2, 3], dtype = Int16, flat = replicate 12 5\<rparr>\<rparr>
          (update_indexes (ROI_init None None :: string ROI) (Some 0) [7, 2, 11]) (Some 0) = Inr m
        \<and> shape m = [2, 2, 3]
        \<and> set (np_nonzero (flatten m)) = {2, 7, 11})"
  using mask_roundtrip
    [of "\<lparr>spatialRef = None,
           data = Some \<lparr>shape = [2, 2, 3], dtype = Int16, flat = replicate 12 5\<rparr>\<rparr>"
        "\<lparr>shape = [2, 2, 3], dtype = Int16, flat = replicate 12 5\<rparr>" "[7, 2, 11]"
        "ROI_init None None :: string ROI" 0]
  by auto

section \<open>Properties of the check for missing slices\<close>

lemma np_diff_length: "length (np_diff xs) = length xs - 1"
  by (simp add: np_diff_def)

lemma max_relative_deviation_gt:
  assumes "steps \<noteq> []"
  shows "c < max_relative_deviation steps \<longleftrightarrow>
         (\<exists>d\<in>set steps. c < \<bar>d - hd steps\<bar> / \<bar>hd steps\<bar>)"
  unfolding max_relative_deviation_def
  using assms by (subst Max_gr_iff) auto

lemma allclose_iff_deviation:
  assumes "steps \<noteq> []" and "hd steps \<noteq> 0" and "0 \<le> rtol"
  shows "np_allclose steps (hd steps) 0 rtol \<longleftrightarrow> max_relative_deviation steps \<le> rtol"
proof -
  have pos: "0 < \<bar>hd steps\<bar>" using assms(2) by simp
  have "\<not> np_allclose steps (hd steps) 0 rtol \<longleftrightarrow>
        (\<exists>d\<in>set steps. rtol * \<bar>hd steps\<bar> < \<bar>d - hd steps\<bar>)"
    by (auto simp: np_allclose_def list_all_iff not_le)
  also have "\<dots> \<longleftrightarrow> (\<exists>d\<in>set steps. rtol < \<bar>d - hd steps\<bar> / \<bar>hd steps\<bar>)"
    using pos by (simp add: pos_less_divide_eq)
  also have "\<dots> \<longleftrightarrow> rtol < max_relative_deviation steps"
    by (simp add: max_relative_deviation_gt [OF assms(1)])
  finally show ?thesis by auto
qed

lemma deviation_zero_first_step:
  "hd steps = 0 \<Longrightarrow> steps \<noteq> [] \<Longrightarrow> max_relative_deviation steps = 0"
  by (simp add: max_relative_deviation_def)

text \<open>
  Claim C2, as amended. For at least two positions: when the maximum relative
  deviation of the steps between the sorted positions from the first step exceeds 10%,
  the check raises the missing-slices error; when it exceeds 1e-5 and does not exceed
  10%, the check returns with the warning of non-uniform spacing.
\<close>

theorem missing_slices_threshold:
  assumes "2 \<le> length positions"
  shows "(1 / 10 < max_relative_deviation (np_diff (sort positions))
            \<longrightarrow> check_for_missing_slices positions = Inl MissingSlices)
       \<and> (1 / 10 ^ 5 < max_relative_deviation (np_diff (sort positions))
          \<and> max_relative_deviation (np_diff (sort positions)) \<le> 1 / 10
            \<longrightarrow> check_for_missing_slices positions = Inr [NonUniformSpacing])"
proof -
  let ?steps = "np_diff (sort positions)"
  from assms have ne: "?steps \<noteq> []"
    by (simp add: np_diff_length flip: length_greater_0_conv)
  then obtain d0 rest where st: "?steps = d0 # rest"
    by (cases ?steps) auto
  then have hd: "hd ?steps = d0" by simp
  show ?thesis
  proof (cases "d0 = 0")
    case True
    with hd ne have "max_relative_deviation ?steps = 0"
      by (simp add: deviation_zero_first_step)
    then show ?thesis by simp
  next
    case False
    with hd have nz: "hd ?steps \<noteq> 0" by simp
    have a: "np_allclose ?steps d0 0 (1 / 10) \<longleftrightarrow> max_relative_deviation ?steps \<le> 1 / 10"
      using allclose_iff_deviation [OF ne nz, of "1 / 10"] hd by simp
    have b: "np_allclose ?steps d0 0 (1 / 10 ^ 5) \<longleftrightarrow> max_relative_deviation ?steps \<le> 1 / 10 ^ 5"
      using allclose_iff_deviation [OF ne nz, of "1 / 10 ^ 5"] hd by simp
    show ?thesis
      using a b st by (auto simp: check_for_missing_slices_def Let_def)
  qed
qed

theorem missing_slices_threshold_witness:
  "2 \<le> length [0, 10, 22 :: real]
   \<and> 1 / 10 < max_relative_deviation (np_diff (sort [0, 10, 22]))
   \<and> check_for_missing_slices [0, 10, 22] = Inl MissingSlices
   \<and> 2 \<le> length [0, 10, 21 :: real]
   \<and> 1 / 10 ^ 5 < max_relative_deviation (np_diff (sort [0, 10, 21]))
   \<and> max_relative_deviation (np_diff (sort [0, 10, 21])) \<le> 1 / 10
   \<and> check_for_missing_slices [0, 10, 21] = Inr [NonUniformSpacing]"
  using missing_slices_threshold [of "[0, 10, 22]"] missing_slices_threshold [of "[0, 10, 21]"]
  by (simp add: max_relative_deviation_def np_diff_def)

text \<open>
  Claim C2, the scenario as stated: slices at 0, 10, 21 fail with the missing-slices
  error. The steps are 10 and 11, the deviation is exactly 10% and the test is
  \<^verbatim>\<open>|11 - 10| <= 0.1 * |10|\<close>: the check, and the whole validation of three such
  slices, return with a warning.
\<close>

theorem positions_0_10_21_pass:
  "slice_positions gap_slices = Inr [0, 10, 21]
   \<and> check_for_missing_slices [0, 10, 21] = Inr [NonUniformSpacing]
   \<and> validate_slices_form_uniform_grid gap_slices = Inr [NonUniformSpacing]"
  by (simp add: validate_slices_form_uniform_grid_def slice_attribute_equal_def
      validate_image_orientation_def almost_zero_def almost_one_def is_close_def np_norm_def
      check_for_missing_slices_def np_diff_def np_allclose_def
      slice_positions_def extract_cosines_def
      gap_slices_def scenario_slice_def Let_def)

section \<open>Properties of the slice order and the slice spacing\<close>

lemma slice_positions_Cons:
  "slice_positions (d0 # ds) = Inr (map (projection (ImageOrientationPatient d0)) (d0 # ds))"
  by (simp add: slice_positions_def extract_cosines_def projection_def Let_def)

lemma insort_key_pairs:
  "list_all (\<lambda>p. fst p = f (snd p)) ps \<Longrightarrow>
     map snd (insort_key fst (f x, x) ps) = insort_key f x (map snd ps)"
  by (induction ps) auto

lemma sort_key_pairs_inv:
  "list_all (\<lambda>p. fst p = f (snd p)) (sort_key fst (map (\<lambda>d. (f d, d)) xs))"
  by (auto simp: list_all_iff)

lemma sort_key_pairs:
  "map snd (sort_key fst (map (\<lambda>d. (f d, d)) xs)) = sort_key f xs"
proof (induction xs)
  case Nil
  then show ?case by simp
next
  case (Cons x xs)
  have "map snd (sort_key fst (map (\<lambda>d. (f d, d)) (x # xs)))
      = map snd (insort_key fst (f x, x) (sort_key fst (map (\<lambda>d. (f d, d)) xs)))"
    by simp
  also have "\<dots> = insort_key f x (map snd (sort_key fst (map (\<lambda>d. (f d, d)) xs)))"
    by (rule insort_key_pairs [OF sort_key_pairs_inv])
  also have "\<dots> = sort_key f (x # xs)"
    by (simp add: Cons.IH)
  finally show ?case .
qed

lemma tie_conflict_iff:
  "tie_conflict (map (\<lambda>d. (f d, d)) ds) \<longleftrightarrow> \<not> inj_on f (set ds)"
  by (auto simp: tie_conflict_def list_ex_iff inj_on_def)

lemma zip_map_self: "zip (map f xs) xs = map (\<lambda>d. (f d, d)) xs"
  by (induction xs) simp_all

text \<open>
  The sort returns exactly when no two different slices share a key, and then it is
  the stable sort by key.
\<close>

lemma sort_by_slice_spacing_eq:
  assumes "ds \<noteq> []"
  shows "sort_by_slice_spacing ds =
     (if inj_on (projection (ImageOrientationPatient (hd ds))) (set ds)
      then Inr (sort_key (projection (ImageOrientationPatient (hd ds))) ds)
      else Inl TypeError)"
proof -
  from assms obtain d0 rest where ds: "ds = d0 # rest" by (cases ds) auto
  let ?f = "projection (ImageOrientationPatient d0)"
  have "zip (map ?f (d0 # rest)) (d0 # rest) = map (\<lambda>d. (?f d, d)) (d0 # rest)"
    by (rule zip_map_self)
  then show ?thesis
    unfolding ds sort_by_slice_spacing_def slice_positions_Cons
    by (simp only: sum.case Let_def tie_conflict_iff sort_key_pairs list.sel if_not_P if_P
        split: if_splits) auto
qed

lemma sort_by_slice_spacing_Nil: "sort_by_slice_spacing [] = Inl IndexError"
  by (simp add: sort_by_slice_spacing_def slice_positions_def)

lemma sum_list_np_diff: "xs \<noteq> [] \<Longrightarrow> sum_list (np_diff xs) = last xs - hd xs"
proof (induction xs rule: induct_list012)
  case 1
  then show ?case by simp
next
  case (2 x)
  then show ?case by (simp add: np_diff_def)
next
  case (3 x y zs)
  then show ?case by (simp add: np_diff_def)
qed

lemma slice_spacing_eq:
  assumes "ds \<noteq> []"
  shows "slice_spacing ds =
     Inr (if length ds > 1
          then np_mean (np_diff (sort (map (projection (ImageOrientationPatient (hd ds))) ds)))
          else 0)"
proof -
  from assms obtain d0 rest where ds: "ds = d0 # rest" by (cases ds) auto
  show ?thesis
    unfolding ds by (simp add: slice_spacing_def slice_positions_Cons)
qed

lemma slice_spacing_returns: "ds \<noteq> [] \<Longrightarrow> \<exists>ss. slice_spacing ds = Inr ss"
  by (simp add: slice_spacing_eq)

lemma sorted_last_Max:
  fixes xs :: "real list"
  assumes "sorted xs" and "xs \<noteq> []"
  shows "last xs = Max (set xs)"
proof (rule Max_eqI [symmetric])
  show "finite (set xs)" by simp
  show "last xs \<in> set xs" using assms(2) by simp
  fix y assume "y \<in> set xs"
  then obtain i where i: "i < length xs" "y = xs ! i"
    by (auto simp: in_set_conv_nth)
  then have "xs ! i \<le> xs ! (length xs - 1)"
    using assms by (intro sorted_nth_mono) auto
  then show "y \<le> last xs"
    using i assms(2) by (simp add: last_conv_nth)
qed

lemma sorted_hd_Min:
  fixes xs :: "real list"
  assumes "sorted xs" and "xs \<noteq> []"
  shows "hd xs = Min (set xs)"
proof (rule Min_eqI [symmetric])
  show "finite (set xs)" by simp
  show "hd xs \<in> set xs" using assms(2) by simp
  fix y assume "y \<in> set xs"
  then show "hd xs \<le> y"
    using assms by (cases xs) auto
qed

text \<open>The mean of the steps is the extent of the keys over the number of steps.\<close>

lemma mean_steps:
  assumes "length ks > 1"
  shows "np_mean (np_diff (sort ks)) = (Max (set ks) - Min (set ks)) / real (length ks - 1)"
proof -
  have "length (sort ks) = length ks" by (rule length_sort)
  with assms have ne: "sort ks \<noteq> []" by (cases "sort ks") simp_all
  have l: "last (sort ks) = Max (set ks)"
    using sorted_last_Max [OF sorted_sort ne] by simp
  have h: "hd (sort ks) = Min (set ks)"
    using sorted_hd_Min [OF sorted_sort ne] by simp
  show ?thesis
    by (simp add: np_mean_def sum_list_np_diff [OF ne] l h np_diff_length)
qed

lemma scenario_sorted:
  "sort_by_slice_spacing scenario_slices =
     Inr [scenario_slice ''1.2.3.1'' (0, 0, 0) [1, 2, 3, 4],
          scenario_slice ''1.2.3.2'' (0, 0, 2) [5, 6, 7, 8],
          scenario_slice ''1.2.3.3'' (0, 0, 4) [9, 10, 11, 12]]"
  by (simp add: sort_by_slice_spacing_def slice_positions_def extract_cosines_def
      scenario_slices_def scenario_slice_def tie_conflict_def Let_def)

lemma scenario_validated: "validate_slices_form_uniform_grid scenario_slices = Inr []"
  by (simp add: validate_slices_form_uniform_grid_def slice_attribute_equal_def
      validate_image_orientation_def almost_zero_def almost_one_def is_close_def np_norm_def
      check_for_missing_slices_def np_diff_def np_allclose_def
      slice_positions_def extract_cosines_def
      scenario_slices_def scenario_slice_def Let_def)

text \<open>
  Claim C4. For every non-empty slice list: the slice normal is the cross product of
  the row and column cosines; the keys are the positions projected on the normal of
  the first slice; an order that the sort returns is ascending by key and a
  permutation of the input, and the sort does return when the keys are distinct;
  when all slices have one orientation, every permutation of the input gives the
  same result; the slice spacing is the mean of the steps between the sorted keys for
  more than one slice and 0 for one slice.
\<close>

theorem slice_order_and_spacing:
  assumes "ds \<noteq> []"
  shows "extract_cosines io = (fst io, snd io, np_cross (fst io) (snd io))
    \<and> slice_positions ds = Inr (map (projection (ImageOrientationPatient (hd ds))) ds)
    \<and> (sort_by_slice_spacing ds = Inr res \<longrightarrow>
          sorted (map (projection (ImageOrientationPatient (hd ds))) res) \<and> mset res = mset ds)
    \<and> (distinct (map (projection (ImageOrientationPatient (hd ds))) ds) \<longrightarrow>
          sort_by_slice_spacing ds
            = Inr (sort_key (projection (ImageOrientationPatient (hd ds))) ds))
    \<and> (list_all (\<lambda>d. ImageOrientationPatient d = ImageOrientationPatient (hd ds)) ds
          \<and> mset ds' = mset ds \<longrightarrow> sort_by_slice_spacing ds' = sort_by_slice_spacing ds)
    \<and> (length ds > 1 \<longrightarrow>
          slice_spacing ds
            = Inr (np_mean (np_diff (sort (map (projection (ImageOrientationPatient (hd ds))) ds)))))
    \<and> (length ds = 1 \<longrightarrow> slice_spacing ds = Inr 0)"
proof (intro conjI impI)
  let ?f = "projection (ImageOrientationPatient (hd ds))"
  show "extract_cosines io = (fst io, snd io, np_cross (fst io) (snd io))"
    by (simp add: extract_cosines_def Let_def)
  show "slice_positions ds = Inr (map ?f ds)"
    using assms slice_positions_Cons by (cases ds) auto
  show "sorted (map ?f res)" if "sort_by_slice_spacing ds = Inr res"
    using that by (auto simp: sort_by_slice_spacing_eq [OF assms] split: if_splits)
  show "mset res = mset ds" if "sort_by_slice_spacing ds = Inr res"
    using that by (auto simp: sort_by_slice_spacing_eq [OF assms] split: if_splits)
  show "sort_by_slice_spacing ds = Inr (sort_key ?f ds)" if "distinct (map ?f ds)"
    using that by (simp add: sort_by_slice_spacing_eq [OF assms] distinct_map)
  show "slice_spacing ds = Inr (np_mean (np_diff (sort (map ?f ds))))" if "1 < length ds"
    using that by (simp add: slice_spacing_eq [OF assms])
  show "slice_spacing ds = Inr 0" if "length ds = 1"
    using that by (simp add: slice_spacing_eq [OF assms])
  show "sort_by_slice_spacing ds' = sort_by_slice_spacing ds"
    if h: "list_all (\<lambda>d. ImageOrientationPatient d = ImageOrientationPatient (hd ds)) ds
         \<and> mset ds' = mset ds"
  proof -
    from h have m: "mset ds' = mset ds" and s: "set ds' = set ds"
      by (auto dest: mset_eq_setD)
    from m assms have ne: "ds' \<noteq> []" by auto
    then have "hd ds' \<in> set ds" using s by (metis hd_in_set)
    with h have o: "ImageOrientationPatient (hd ds') = ImageOrientationPatient (hd ds)"
      by (simp add: list_all_iff)
    have "sort_key ?f ds' = sort_key ?f ds" if "inj_on ?f (set ds)"
      by (rule sort_key_inj_key_eq) (use that m s in simp_all)
    then show ?thesis
      by (simp add: sort_by_slice_spacing_eq [OF assms] sort_by_slice_spacing_eq [OF ne] o s)
  qed
qed

theorem slice_order_and_spacing_witness:
  "scenario_slices \<noteq> []
   \<and> extract_cosines ((1, 0, 0), (0, 1, 0)) = ((1, 0, 0), (0, 1, 0), (0, 0, 1))
   \<and> slice_positions scenario_slices = Inr [4, 0, 2]
   \<and> sort_by_slice_spacing scenario_slices =
       Inr [scenario_slice ''1.2.3.1'' (0, 0, 0) [1, 2, 3, 4],
            scenario_slice ''1.2.3.2'' (0, 0, 2) [5, 6, 7, 8],
            scenario_slice ''1.2.3.3'' (0, 0, 4) [9, 10, 11, 12]]
   \<and> slice_spacing scenario_slices = Inr 2"
  using slice_order_and_spacing [of scenario_slices "((1, 0, 0), (0, 1, 0))"]
  by (simp add: scenario_slices_def scenario_slice_def projection_def np_mean_def np_diff_def)

section \<open>Properties of the affine builder\<close>

lemma upt_4: "[0..<4] = [0, 1, 2, 3]" and upt_3: "[0..<3] = [0, 1, 2]"
  by (simp_all add: upt_rec)

lemma ijk_explicit:
  assumes "sort_by_slice_spacing ds = Inr (d0 # rest)"
    and "ImageOrientationPatient d0 = ((r1, r2, r3), (c1, c2, c3))"
    and "PixelSpacing d0 = (row_spacing, column_spacing)"
    and "ImagePositionPatient d0 = (p1, p2, p3)"
    and "slice_spacing ds = Inr ss"
  shows "ijk_to_patient_xyz_transform_matrix ds = Inr
     ([[r1 * column_spacing, c1 * row_spacing, (r2 * c3 - r3 * c2) * ss, p1],
       [r2 * column_spacing, c2 * row_spacing, (r3 * c1 - r1 * c3) * ss, p2],
       [r3 * column_spacing, c3 * row_spacing, (r1 * c2 - r2 * c1) * ss, p3],
       [0, 0, 0, 1]],
      [[r1, r2, r3], [c1, c2, c3], [r2 * c3 - r3 * c2, r3 * c1 - r1 * c3, r1 * c2 - r2 * c1]],
      [[column_spacing, 0, 0], [0, row_spacing, 0], [0, 0, ss]])"
  using assms
  by (simp add: ijk_to_patient_xyz_transform_matrix_def extract_cosines_def Let_def
      np_identity_def set_column_def set_entry_def np_transpose_def vec_list_def scale_def
      upt_4 upt_3 enumerate_eq_zip)

text \<open>
  Claim C5, as amended. With the first slice of the resolved order, its cosines, its
  pixel spacing and its position: the transform has the columns row cosine times
  column spacing, column cosine times row spacing, slice normal times slice spacing
  and the position, over the last row (0, 0, 0, 1); the rotation has the \<^emph>\<open>rows\<close>
  row cosine, column cosine, slice normal; the scaling is diagonal with the column
  spacing, the row spacing and the slice spacing.
\<close>

theorem affine_builder:
  assumes "sort_by_slice_spacing ds = Inr (d0 # rest)"
    and "ImageOrientationPatient d0 = ((r1, r2, r3), (c1, c2, c3))"
    and "PixelSpacing d0 = (row_spacing, column_spacing)"
    and "ImagePositionPatient d0 = (p1, p2, p3)"
  shows "\<exists>ss. slice_spacing ds = Inr ss
    \<and> ijk_to_patient_xyz_transform_matrix ds = Inr
     ([[r1 * column_spacing, c1 * row_spacing, (r2 * c3 - r3 * c2) * ss, p1],
       [r2 * column_spacing, c2 * row_spacing, (r3 * c1 - r1 * c3) * ss, p2],
       [r3 * column_spacing, c3 * row_spacing, (r1 * c2 - r2 * c1) * ss, p3],
       [0, 0, 0, 1]],
      [[r1, r2, r3], [c1, c2, c3], [r2 * c3 - r3 * c2, r3 * c1 - r1 * c3, r1 * c2 - r2 * c1]],
      [[column_spacing, 0, 0], [0, row_spacing, 0], [0, 0, ss]])"
proof -
  from assms(1) have "ds \<noteq> []"
    by (auto simp: sort_by_slice_spacing_Nil)
  then obtain ss where ss: "slice_spacing ds = Inr ss"
    using slice_spacing_returns by blast
  from ijk_explicit [OF assms ss] ss show ?thesis by blast
qed

theorem affine_builder_witness:
  "\<exists>ss. slice_spacing scenario_slices = Inr ss
    \<and> ijk_to_patient_xyz_transform_matrix scenario_slices = Inr
     ([[1, 0, 0, 0], [0, 1, 0, 0], [0, 0, ss, 0], [0, 0, 0, 1]],
      [[1, 0, 0], [0, 1, 0], [0, 0, 1]],
      [[1, 0, 0], [0, 1, 0], [0, 0, ss]])"
  using affine_builder [OF scenario_sorted, of 1 0 0 0 1 0 1 1 0 0 0]
  by (simp add: scenario_slice_def)

text \<open>
  Claim C5 as stated: the rotation has the columns row cosine, column cosine, slice
  normal. The code transposes the matrix it has filled by columns. For one slice with
  row cosine (0, 1, 0) and column cosine (-1, 0, 0), the first column of the rotation
  is (0, -1, 0), not the row cosine.
\<close>

theorem rotation_columns_counterexample:
  "case ijk_to_patient_xyz_transform_matrix
          [(scenario_slice ''1.2.3.1'' (0, 0, 0) [1, 2, 3, 4])
             \<lparr>ImageOrientationPatient := ((0, 1, 0), (- 1, 0, 0))\<rparr>] of
     Inl e \<Rightarrow> False
   | Inr (transform, rotation, scaling) \<Rightarrow>
       column rotation 0 = [0, - 1, 0] \<and> column rotation 0 \<noteq> vec_list (0, 1, 0)"
  by (simp add: ijk_to_patient_xyz_transform_matrix_def sort_by_slice_spacing_def
      slice_positions_def slice_spacing_def tie_conflict_def extract_cosines_def Let_def
      np_identity_def set_column_def set_entry_def np_transpose_def vec_list_def scale_def
      upt_4 upt_3 enumerate_eq_zip column_def scenario_slice_def)

section \<open>Properties of the volume assembler\<close>

lemma valid_index3: "valid_index [c, r, n] [a, b, k] \<longleftrightarrow> a < c \<and> b < r \<and> k < n"
  by (simp add: valid_index_def)

lemma valid_index2: "valid_index [c, r] [a, b] \<longleftrightarrow> a < c \<and> b < r"
  by (simp add: valid_index_def)

lemma broadcast_shape_same: "broadcast_shape s s = Some s"
  by (simp add: broadcast_shape_def Let_def list_all2_same)

lemma broadcast_get_same:
  assumes "a < c" and "b < r"
  shows "broadcast_get x [c, r] [a, b] = flat x ! ravel [c, r] [a, b]"
  using assms by (cases "c = 1"; cases "r = 1") (auto simp: broadcast_get_def)

lemma setitem_slice_result:
  assumes "shape vol = [c, r, n]" and "k < n" and "shape x = [c, r]"
  shows "setitem_slice vol k x =
     Inr (vol\<lparr>flat :=
       map (\<lambda>i. let idx = unravel [c, r, n] i in
                 if idx ! 2 = k
                 then assign_cast (dtype x) (dtype vol) (broadcast_get x [c, r] (take 2 idx))
                 else flat vol ! i)
         [0..<length (flat vol)]\<rparr>)"
  using assms by (simp add: setitem_slice_def broadcast_shape_same)

lemma getitem_setitem_slice:
  assumes sv: "shape vol = [c, r, n]" and wv: "wf_array vol" and k: "k < n"
    and sx: "shape x = [c, r]"
    and vol': "setitem_slice vol k x = Inr vol'"
    and a: "a < c" and b: "b < r" and k': "k' < n"
  shows "getitem vol' [a, b, k'] =
     (if k' = k then assign_cast (dtype x) (dtype vol) (getitem x [a, b])
      else getitem vol [a, b, k'])"
proof -
  have v: "valid_index [c, r, n] [a, b, k']"
    using a b k' by (simp add: valid_index3)
  have len: "length (flat vol) = prod_list [c, r, n]"
    using wv sv by (simp add: wf_array_def)
  have lt: "ravel [c, r, n] [a, b, k'] < length (flat vol)"
    using ravel_less [OF v] len by simp
  have un: "unravel [c, r, n] (ravel [c, r, n] [a, b, k']) = [a, b, k']"
    by (rule unravel_ravel [OF v])
  from vol' have "vol' = vol\<lparr>flat :=
       map (\<lambda>i. let idx = unravel [c, r, n] i in
                 if idx ! 2 = k
                 then assign_cast (dtype x) (dtype vol) (broadcast_get x [c, r] (take 2 idx))
                 else flat vol ! i)
         [0..<length (flat vol)]\<rparr>"
    by (simp add: setitem_slice_result [OF sv k sx])
  then have "getitem vol' [a, b, k'] =
      (let idx = unravel [c, r, n] (ravel [c, r, n] [a, b, k']) in
                 if idx ! 2 = k
                 then assign_cast (dtype x) (dtype vol) (broadcast_get x [c, r] (take 2 idx))
                 else flat vol ! ravel [c, r, n] [a, b, k'])"
    using lt sv by (simp add: getitem_def Let_def del: ravel.simps unravel.simps)
  also have "\<dots> = (if k' = k then assign_cast (dtype x) (dtype vol) (getitem x [a, b])
      else getitem vol [a, b, k'])"
    unfolding un using a b sx sv
    by (simp add: Let_def broadcast_get_same getitem_def del: ravel.simps unravel.simps)
  finally show ?thesis .
qed

lemma setitem_slice_frame:
  assumes "shape vol = [c, r, n]" and "k < n" and "shape x = [c, r]"
    and "setitem_slice vol k x = Inr vol'"
  shows "shape vol' = shape vol" and "dtype vol' = dtype vol"
    and "wf_array vol \<Longrightarrow> wf_array vol'"
  using assms(4) unfolding setitem_slice_result [OF assms(1-3)]
  by (auto simp: wf_array_def)

text \<open>
  The loop: slices \<open>k\<close> to \<open>k + length ds\<close> of the result hold the arrays assigned,
  the others are as before.
\<close>

lemma fill_voxels_correct:
  assumes "shape vol = [c, r, n]" and "wf_array vol" and "k + length ds \<le> n"
    and "list_all (\<lambda>d. shape (g d) = [c, r]) ds"
  shows "\<exists>vol'. fill_voxels g k ds vol = Inr vol'
          \<and> shape vol' = [c, r, n] \<and> wf_array vol' \<and> dtype vol' = dtype vol
          \<and> (\<forall>a<c. \<forall>b<r. \<forall>k'<n. getitem vol' [a, b, k'] =
                (if k \<le> k' \<and> k' < k + length ds
                 then assign_cast (dtype (g (ds ! (k' - k)))) (dtype vol)
                        (getitem (g (ds ! (k' - k))) [a, b])
                 else getitem vol [a, b, k']))"
  using assms
proof (induction ds arbitrary: vol k)
  case Nil
  then show ?case by simp
next
  case (Cons d ds)
  from Cons.prems have k: "k < n" and sx: "shape (g d) = [c, r]"
    and rest: "list_all (\<lambda>d. shape (g d) = [c, r]) ds" and kk: "Suc k + length ds \<le> n"
    by simp_all
  from setitem_slice_result [OF Cons.prems(1) k sx]
  obtain v1 where v1: "setitem_slice vol k (g d) = Inr v1" by blast
  note fr = setitem_slice_frame [OF Cons.prems(1) k sx v1]
  have s1: "shape v1 = [c, r, n]" using fr(1) Cons.prems(1) by simp
  have w1: "wf_array v1" using fr(3) Cons.prems(2) by simp
  from Cons.IH [OF s1 w1 kk rest]
  obtain v2 where v2: "fill_voxels g (Suc k) ds v1 = Inr v2"
    and s2: "shape v2 = [c, r, n]" and w2: "wf_array v2" and d2: "dtype v2 = dtype v1"
    and r2: "\<And>a b k'. a < c \<Longrightarrow> b < r \<Longrightarrow> k' < n \<Longrightarrow> getitem v2 [a, b, k'] =
                (if Suc k \<le> k' \<and> k' < Suc k + length ds
                 then assign_cast (dtype (g (ds ! (k' - Suc k)))) (dtype v1)
                        (getitem (g (ds ! (k' - Suc k))) [a, b])
                 else getitem v1 [a, b, k'])"
    by blast
  have "getitem v2 [a, b, k'] =
          (if k \<le> k' \<and> k' < k + length (d # ds)
           then assign_cast (dtype (g ((d # ds) ! (k' - k)))) (dtype vol)
                  (getitem (g ((d # ds) ! (k' - k))) [a, b])
           else getitem vol [a, b, k'])"
    if a: "a < c" and b: "b < r" and k': "k' < n" for a b k'
  proof (cases "Suc k \<le> k' \<and> k' < Suc k + length ds")
    case True
    then have "(d # ds) ! (k' - k) = ds ! (k' - Suc k)"
      by (simp add: nth_Cons')
    with True r2 [OF a b k'] fr(2) show ?thesis by simp
  next
    case False
    have "getitem v2 [a, b, k'] = getitem v1 [a, b, k']"
      by (subst r2 [OF a b k'], rule if_not_P, rule False)
    also have "\<dots> = (if k' = k then assign_cast (dtype (g d)) (dtype vol) (getitem (g d) [a, b])
      else getitem vol [a, b, k'])"
      by (rule getitem_setitem_slice [OF Cons.prems(1,2) k sx v1 a b k'])
    finally show ?thesis
      using False by (cases "k' = k") auto
  qed
  with v1 v2 s2 w2 d2 fr(2) show ?case by simp
qed

lemma np_T_2d:
  assumes "shape p = [r, c]" and "wf_array p"
  shows "shape (np_T p) = [c, r]" and "wf_array (np_T p)" and "dtype (np_T p) = dtype p"
    and "a < c \<Longrightarrow> b < r \<Longrightarrow> getitem (np_T p) [a, b] = getitem p [b, a]"
proof -
  show "shape (np_T p) = [c, r]" using assms by (simp add: np_T_def)
  show "wf_array (np_T p)" using assms by (simp add: np_T_def wf_array_def mult.commute)
  show "dtype (np_T p) = dtype p" by (simp add: np_T_def)
  show "getitem (np_T p) [a, b] = getitem p [b, a]" if a: "a < c" and b: "b < r"
  proof -
    have v: "valid_index [c, r] [a, b]" using a b by (simp add: valid_index2)
    have len: "length (flat p) = prod_list [c, r]"
      using assms by (simp add: wf_array_def mult.commute)
    have lt: "ravel [c, r] [a, b] < length (flat p)"
      using ravel_less [OF v] len by simp
    have un: "unravel [c, r] (ravel [c, r] [a, b]) = [a, b]"
      by (rule unravel_ravel [OF v])
    show ?thesis
      using lt assms(1) un
      by (simp add: np_T_def getitem_def del: ravel.simps unravel.simps)
  qed
qed

lemma first_error_Inr:
  "first_error rs = Inr u \<Longrightarrow> list_all (\<lambda>r. r = Inr ()) rs"
  by (induction rs rule: first_error.induct) simp_all

lemma slice_attribute_equal_Inr:
  "slice_attribute_equal ds name attr = Inr u \<Longrightarrow> list_all (\<lambda>d. attr d = attr (hd ds)) ds"
  by (cases ds) (auto simp: slice_attribute_equal_def split: if_splits)

lemma validated_same_grid:
  assumes "validate_slices_form_uniform_grid ds = Inr ws"
  shows "list_all (\<lambda>d. Rows d = Rows (hd ds)) ds"
    and "list_all (\<lambda>d. Columns d = Columns (hd ds)) ds"
proof -
  from assms obtain u where "first_error
         [slice_attribute_equal ds ''Modality'' Modality,
          slice_attribute_equal ds ''SOPClassUID'' SOPClassUID,
          slice_attribute_equal ds ''SeriesInstanceUID'' SeriesInstanceUID,
          slice_attribute_equal ds ''Rows'' Rows,
          slice_attribute_equal ds ''Columns'' Columns,
          slice_attribute_equal ds ''ImageOrientationPatient'' ImageOrientationPatient,
          slice_attribute_equal ds ''PixelSpacing'' PixelSpacing,
          slice_attribute_equal ds ''PixelRepresentation'' PixelRepresentation,
          slice_attribute_equal ds ''BitsAllocated'' BitsAllocated,
          slice_attribute_equal ds ''BitsStored'' BitsStored,
          slice_attribute_equal ds ''HighBit'' HighBit] = Inr u"
    unfolding validate_slices_form_uniform_grid_def by (auto split: sum.splits)
  from first_error_Inr [OF this]
  have "slice_attribute_equal ds ''Rows'' Rows = Inr ()"
    and "slice_attribute_equal ds ''Columns'' Columns = Inr ()"
    by simp_all
  then show "list_all (\<lambda>d. Rows d = Rows (hd ds)) ds"
    and "list_all (\<lambda>d. Columns d = Columns (hd ds)) ds"
    by (auto dest: slice_attribute_equal_Inr)
qed

lemma rescaled_slice_2d:
  assumes "shape (pixel_array d) = [r, c]" and "wf_array (pixel_array d)"
  shows "shape (rescaled_slice d) = [c, r]" and "dtype (rescaled_slice d) = Float32"
    and "a < c \<Longrightarrow> b < r \<Longrightarrow>
         getitem (rescaled_slice d) [a, b] =
           getitem (pixel_array d) [b, a] * rescale_slope d + rescale_intercept d"
proof -
  note t = np_T_2d [OF assms]
  show "shape (rescaled_slice d) = [c, r]"
    using t(1) by (simp add: rescaled_slice_def np_add_scalar_def np_mul_scalar_def astype_def)
  show "dtype (rescaled_slice d) = Float32"
    by (simp add: rescaled_slice_def np_add_scalar_def np_mul_scalar_def astype_def)
  show "getitem (rescaled_slice d) [a, b] =
           getitem (pixel_array d) [b, a] * rescale_slope d + rescale_intercept d"
    if a: "a < c" and b: "b < r"
  proof -
    have v: "valid_index [c, r] [a, b]" using a b by (simp add: valid_index2)
    have "length (flat (np_T (pixel_array d))) = prod_list [c, r]"
      using t(1,2) by (simp add: wf_array_def)
    with ravel_less [OF v] have lt: "ravel [c, r] [a, b] < length (flat (np_T (pixel_array d)))"
      by simp
    have c: "assign_cast dt Float32 x = x" for dt x
      by (simp add: assign_cast_def np_cast_def int_bounds_def)
    have "getitem (rescaled_slice d) [a, b] =
        getitem (np_T (pixel_array d)) [a, b] * rescale_slope d + rescale_intercept d"
      using lt t(1)
      by (simp add: rescaled_slice_def np_add_scalar_def np_mul_scalar_def astype_def
          getitem_def c del: ravel.simps)
    then show ?thesis by (simp add: t(4) [OF a b])
  qed
qed

lemma rescaled_sorted:
  "sort_by_slice_spacing rescaled_slices =
     Inr [(scenario_slice ''1.2.3.1'' (0, 0, 0) [1, 2, 3, 4])\<lparr>RescaleIntercept := Some (- 1024)\<rparr>,
          scenario_slice ''1.2.3.2'' (0, 0, 2) [5, 6, 7, 8],
          (scenario_slice ''1.2.3.3'' (0, 0, 4) [9, 10, 11, 12])\<lparr>RescaleSlope := Some 2\<rparr>]"
  by (simp add: sort_by_slice_spacing_def slice_positions_def extract_cosines_def
      rescaled_slices_def scenario_slice_def tie_conflict_def Let_def)

lemma rescaled_validated: "validate_slices_form_uniform_grid rescaled_slices = Inr []"
  by (simp add: validate_slices_form_uniform_grid_def slice_attribute_equal_def
      validate_image_orientation_def almost_zero_def almost_one_def is_close_def np_norm_def
      check_for_missing_slices_def np_diff_def np_allclose_def
      slice_positions_def extract_cosines_def
      rescaled_slices_def scenario_slice_def Let_def)

lemma rescaled_pixels:
  "list_all (\<lambda>d. wf_array (pixel_array d) \<and> shape (pixel_array d) = [Rows d, Columns d])
     rescaled_slices"
  by (simp add: rescaled_slices_def scenario_slice_def wf_array_def)

lemma scenario_pixels:
  "list_all (\<lambda>d. wf_array (pixel_array d) \<and> shape (pixel_array d) = [Rows d, Columns d])
     scenario_slices"
  by (simp add: scenario_slices_def scenario_slice_def wf_array_def)

text \<open>
  Claim C1. For every non-empty slice list that passes the validation, whose order
  resolves to \<open>resolved\<close> and whose pixel arrays have the shape (Rows, Columns) of
  their slice: the assembler returns a volume of shape (columns, rows, number of
  slices), which \<^verbatim>\<open>combine_slices\<close> returns as its first component. If a slice has a
  rescale slope or intercept, the volume is float32 and voxel \<open>(c, r, k)\<close> is
  \<open>raw * slope + intercept\<close> for pixel \<open>(r, c)\<close> of the \<open>k\<close>-th slice in resolved
  order, with slope 1 and intercept 0 where the slice has none. Otherwise the volume
  has the dtype of the slices and voxel \<open>(c, r, k)\<close> is that pixel.
\<close>

theorem merge_slice_pixel_arrays_correct:
  assumes ne: "ds \<noteq> []"
    and val: "validate_slices_form_uniform_grid ds = Inr ws"
    and srt: "sort_by_slice_spacing ds = Inr resolved"
    and px: "list_all (\<lambda>d. wf_array (pixel_array d)
                         \<and> shape (pixel_array d) = [Rows d, Columns d]) ds"
  shows "\<exists>voxels. merge_slice_pixel_arrays mem ds = Inr voxels
     \<and> (\<exists>transform rotation scaling.
          combine_slices mem ds = Inr (voxels, transform, rotation, scaling))
     \<and> shape voxels = [Columns (hd ds), Rows (hd ds), length ds]
     \<and> wf_array voxels
     \<and> (list_ex requires_rescaling ds \<longrightarrow>
          dtype voxels = Float32
          \<and> (\<forall>k<length ds. \<forall>c<Columns (hd ds). \<forall>r<Rows (hd ds).
               getitem voxels [c, r, k] =
                 getitem (pixel_array (resolved ! k)) [r, c] * rescale_slope (resolved ! k)
                   + rescale_intercept (resolved ! k)))
     \<and> (\<not> list_ex requires_rescaling ds \<longrightarrow>
          dtype voxels = dtype (pixel_array (hd ds))
          \<and> (list_all (\<lambda>d. dtype (pixel_array d) = dtype (pixel_array (hd ds))) ds \<longrightarrow>
              (\<forall>k<length ds. \<forall>c<Columns (hd ds). \<forall>r<Rows (hd ds).
                 getitem voxels [c, r, k] = getitem (pixel_array (resolved ! k)) [r, c])))"
proof -
  let ?C = "Columns (hd ds)" and ?R = "Rows (hd ds)" and ?N = "length ds"
  from ne obtain d0 rest where ds: "ds = d0 # rest" by (cases ds) auto
  have m: "mset resolved = mset ds"
    using srt by (auto simp: sort_by_slice_spacing_eq [OF ne] split: if_splits)
  then have st: "set resolved = set ds" and ln: "length resolved = ?N"
    by (auto dest: mset_eq_setD mset_eq_length)
  have ex: "list_ex requires_rescaling resolved = list_ex requires_rescaling ds"
    by (simp add: list_ex_iff st)
  have grid: "\<And>d. d \<in> set resolved \<Longrightarrow>
      wf_array (pixel_array d) \<and> shape (pixel_array d) = [?R, ?C]"
    using px validated_same_grid [OF val] by (auto simp: list_all_iff st)
  define e where "e dt = np_empty mem [?C, ?R, ?N] dt" for dt
  have es: "shape (e dt) = [?C, ?R, ?N]" and ew: "wf_array (e dt)" and ed: "dtype (e dt) = dt" for dt
    by (simp_all add: e_def np_empty_def wf_array_def)
  have bound: "0 + length resolved \<le> ?N" by (simp add: ln)
  have mrg: "merge_slice_pixel_arrays mem ds =
      (if list_ex requires_rescaling ds then fill_voxels rescaled_slice 0 resolved (e Float32)
       else fill_voxels raw_slice 0 resolved (e (dtype (pixel_array (hd ds)))))"
    using srt by (simp add: merge_slice_pixel_arrays_def ds Let_def ex [unfolded ds] e_def)
  obtain ss0 where ss0: "slice_spacing ds = Inr ss0"
    using slice_spacing_returns [OF ne] by blast
  from srt ne ln obtain f0 frest where res: "resolved = f0 # frest"
    by (cases resolved) auto
  obtain r1 r2 r3 c1 c2 c3 rs cs p1 p2 p3 where
    "ImageOrientationPatient f0 = ((r1, r2, r3), (c1, c2, c3))"
    "PixelSpacing f0 = (rs, cs)" "ImagePositionPatient f0 = (p1, p2, p3)"
    by (metis prod.exhaust)
  from ijk_explicit [OF srt [unfolded res] this ss0]
  obtain tf where tf: "ijk_to_patient_xyz_transform_matrix ds = Inr tf" by blast
  have comb: "merge_slice_pixel_arrays mem ds = Inr v \<Longrightarrow>
      \<exists>transform rotation scaling. combine_slices mem ds = Inr (v, transform, rotation, scaling)" for v
    using ne val tf by (cases tf) (simp add: combine_slices_def)
  show ?thesis
  proof (cases "list_ex requires_rescaling ds")
    case True
    have sh: "list_all (\<lambda>d. shape (rescaled_slice d) = [?C, ?R]) resolved"
      using grid by (auto simp: list_all_iff rescaled_slice_2d(1))
    from fill_voxels_correct [OF es ew bound sh, of Float32]
    obtain v where v: "fill_voxels rescaled_slice 0 resolved (e Float32) = Inr v"
      and sv: "shape v = [?C, ?R, ?N]" and wv: "wf_array v" and dv: "dtype v = Float32"
      and rd: "\<And>a b k. a < ?C \<Longrightarrow> b < ?R \<Longrightarrow> k < ?N \<Longrightarrow>
          getitem v [a, b, k] =
            assign_cast (dtype (rescaled_slice (resolved ! k))) Float32
              (getitem (rescaled_slice (resolved ! k)) [a, b])"
      by (auto simp: ed ln)
    have "getitem v [a, b, k] =
        getitem (pixel_array (resolved ! k)) [b, a] * rescale_slope (resolved ! k)
          + rescale_intercept (resolved ! k)"
      if a: "a < ?C" and b: "b < ?R" and k: "k < ?N" for a b k
    proof -
      from k ln have "resolved ! k \<in> set resolved" by simp
      from grid [OF this] have g: "shape (pixel_array (resolved ! k)) = [?R, ?C]"
        "wf_array (pixel_array (resolved ! k))" by simp_all
      show ?thesis
        by (simp add: rd [OF a b k] rescaled_slice_2d(2,3) [OF g] a b assign_cast_def)
    qed
    with v sv wv dv True mrg comb show ?thesis by auto
  next
    case False
    let ?dt = "dtype (pixel_array (hd ds))"
    have sh: "list_all (\<lambda>d. shape (raw_slice d) = [?C, ?R]) resolved"
      using grid by (auto simp: list_all_iff raw_slice_def np_T_2d(1))
    from fill_voxels_correct [OF es ew bound sh, of ?dt]
    obtain v where v: "fill_voxels raw_slice 0 resolved (e ?dt) = Inr v"
      and sv: "shape v = [?C, ?R, ?N]" and wv: "wf_array v" and dv: "dtype v = ?dt"
      and rd: "\<And>a b k. a < ?C \<Longrightarrow> b < ?R \<Longrightarrow> k < ?N \<Longrightarrow>
          getitem v [a, b, k] =
            assign_cast (dtype (raw_slice (resolved ! k))) ?dt
              (getitem (raw_slice (resolved ! k)) [a, b])"
      by (auto simp: ed ln)
    have "getitem v [a, b, k] = getitem (pixel_array (resolved ! k)) [b, a]"
      if same: "list_all (\<lambda>d. dtype (pixel_array d) = ?dt) ds"
        and a: "a < ?C" and b: "b < ?R" and k: "k < ?N" for a b k
    proof -
      from k ln have in_set: "resolved ! k \<in> set resolved" by simp
      from grid [OF this] have g: "shape (pixel_array (resolved ! k)) = [?R, ?C]"
        "wf_array (pixel_array (resolved ! k))" by simp_all
      from same in_set st have "dtype (pixel_array (resolved ! k)) = ?dt"
        by (auto simp: list_all_iff)
      then show ?thesis
        by (simp add: rd [OF a b k] raw_slice_def np_T_2d(3,4) [OF g] a b assign_cast_def)
    qed
    with v sv wv dv False mrg comb show ?thesis by auto
  qed
qed

theorem merge_slice_pixel_arrays_correct_witness:
  "rescaled_slices \<noteq> []
   \<and> validate_slices_form_uniform_grid rescaled_slices = Inr []
   \<and> list_all (\<lambda>d. wf_array (pixel_array d) \<and> shape (pixel_array d) = [Rows d, Columns d])
       rescaled_slices
   \<and> (\<exists>voxels. merge_slice_pixel_arrays (\<lambda>i. 0) rescaled_slices = Inr voxels
        \<and> shape voxels = [2, 2, 3] \<and> dtype voxels = Float32
        \<and> getitem voxels [1, 0, 0] = 2 * 1 + (- 1024)
        \<and> getitem voxels [1, 0, 1] = 6 * 1 + 0
        \<and> getitem voxels [1, 0, 2] = 10 * 2 + 0)
   \<and> (\<exists>voxels. merge_slice_pixel_arrays (\<lambda>i. 0) scenario_slices = Inr voxels
        \<and> shape voxels = [2, 2, 3] \<and> dtype voxels = Int16
        \<and> getitem voxels [0, 1, 2] = 11)"
proof -
  have ne: "rescaled_slices \<noteq> []" "scenario_slices \<noteq> []"
    by (simp_all add: rescaled_slices_def scenario_slices_def)
  have hd1: "Columns (hd rescaled_slices) = 2" "Rows (hd rescaled_slices) = 2"
    "length rescaled_slices = 3" "list_ex requires_rescaling rescaled_slices"
    by (simp_all add: rescaled_slices_def scenario_slice_def requires_rescaling_def)
  have hd2: "Columns (hd scenario_slices) = 2" "Rows (hd scenario_slices) = 2"
    "length scenario_slices = 3" "\<not> list_ex requires_rescaling scenario_slices"
    "dtype (pixel_array (hd scenario_slices)) = Int16"
    "list_all (\<lambda>d. dtype (pixel_array d) = dtype (pixel_array (hd scenario_slices)))
       scenario_slices"
    by (simp_all add: scenario_slices_def scenario_slice_def requires_rescaling_def)
  from merge_slice_pixel_arrays_correct
    [OF ne(1) rescaled_validated rescaled_sorted rescaled_pixels, of "\<lambda>i. 0"]
  obtain v where v: "merge_slice_pixel_arrays (\<lambda>i. 0) rescaled_slices = Inr v"
    "shape v = [2, 2, 3]" "dtype v = Float32"
    and rd: "\<And>k c r. k < 3 \<Longrightarrow> c < 2 \<Longrightarrow> r < 2 \<Longrightarrow> getitem v [c, r, k] =
      getitem (pixel_array
        ([(scenario_slice ''1.2.3.1'' (0, 0, 0) [1, 2, 3, 4])\<lparr>RescaleIntercept := Some (- 1024)\<rparr>,
          scenario_slice ''1.2.3.2'' (0, 0, 2) [5, 6, 7, 8],
          (scenario_slice ''1.2.3.3'' (0, 0, 4) [9, 10, 11, 12])\<lparr>RescaleSlope := Some 2\<rparr>] ! k)) [r, c]
       * rescale_slope
        ([(scenario_slice ''1.2.3.1'' (0, 0, 0) [1, 2, 3, 4])\<lparr>RescaleIntercept := Some (- 1024)\<rparr>,
          scenario_slice ''1.2.3.2'' (0, 0, 2) [5, 6, 7, 8],
          (scenario_slice ''1.2.3.3'' (0, 0, 4) [9, 10, 11, 12])\<lparr>RescaleSlope := Some 2\<rparr>] ! k)
       + rescale_intercept
        ([(scenario_slice ''1.2.3.1'' (0, 0, 0) [1, 2, 3, 4])\<lparr>RescaleIntercept := Some (- 1024)\<rparr>,
          scenario_slice ''1.2.3.2'' (0, 0, 2) [5, 6, 7, 8],
          (scenario_slice ''1.2.3.3'' (0, 0, 4) [9, 10, 11, 12])\<lparr>RescaleSlope := Some 2\<rparr>] ! k)"
    unfolding hd1(1-3) using hd1(4) by auto
  have r1: "getitem v [1, 0, 0] = 2 * 1 + (- 1024)"
    "getitem v [1, 0, 1] = 6 * 1 + 0" "getitem v [1, 0, 2] = 10 * 2 + 0"
    by (subst rd; simp add: scenario_slice_def getitem_def rescale_slope_def rescale_intercept_def)+
  from merge_slice_pixel_arrays_correct
    [OF ne(2) scenario_validated scenario_sorted scenario_pixels, of "\<lambda>i. 0"]
  obtain w where w: "merge_slice_pixel_arrays (\<lambda>i. 0) scenario_slices = Inr w"
    "shape w = [2, 2, 3]" "dtype w = Int16"
    and rw: "\<And>k c r. k < 3 \<Longrightarrow> c < 2 \<Longrightarrow> r < 2 \<Longrightarrow> getitem w [c, r, k] =
      getitem (pixel_array
        ([scenario_slice ''1.2.3.1'' (0, 0, 0) [1, 2, 3, 4],
          scenario_slice ''1.2.3.2'' (0, 0, 2) [5, 6, 7, 8],
          scenario_slice ''1.2.3.3'' (0, 0, 4) [9, 10, 11, 12]] ! k)) [r, c]"
    unfolding hd2(1-3) using hd2(4-6) by auto
  have r2: "getitem w [0, 1, 2] = 11"
    by (subst rw; simp add: scenario_slice_def getitem_def)
  from v w r1 r2 ne(1) rescaled_validated rescaled_pixels show ?thesis
    by blast
qed

end
